theory Spec2Isabelle
  imports Complex_Main "HOL-Library.Word"
begin

unbundle bit_operations_syntax

section \<open>JavaScript values as the loaders see them\<close>

text \<open>
  The loaders work on loosely typed records (\<^verbatim>\<open>any\<close>): the JSON records of the CKAN
  datastore, the string-valued rows of the CSV parser and the cells of a spreadsheet.
  The model covers \<^verbatim>\<open>null\<close>, \<^verbatim>\<open>undefined\<close>, booleans, numbers, strings and plain
  objects, together with what a plain object inherits from \<^verbatim>\<open>Object.prototype\<close>
  (the operator \<^verbatim>\<open>in\<close> of extractField sees inherited members). Array values are not
  part of the model.

  Strings are lists of 8-bit characters (code units below 256). A finite number is a
  rational; NaN and the two infinities are values of their own, and \<^verbatim>\<open>-0\<close> is \<^verbatim>\<open>0\<close>.
  An integer that \<^verbatim>\<open>parseInt\<close> reads is rounded to the nearest double, or to an
  infinity beyond the range of the doubles. A decimal fraction that \<^verbatim>\<open>parseFloat\<close>
  reads is kept as the decimal it denotes, and a number is printed with its exact
  digits.

  An object is the list of its own enumerable properties in the order
  \<^verbatim>\<open>Object.keys\<close> reports them. Its own properties hold data (what \<^verbatim>\<open>JSON.parse\<close> and
  the sheet reader deliver); a function is met only as a member that the object
  inherits from \<^verbatim>\<open>Object.prototype\<close>.
\<close>

datatype jsnum = Fin rat | PosInf | NegInf | NaN

text \<open>
  What the code can throw: the TypeError of a failed conversion, and the
  \<^verbatim>\<open>new Error(message)\<close> of the loaders. A computation that can throw returns the
  error on the left and its value on the right.
\<close>

datatype js_error = TypeError | Error string

definition message :: "js_error \<Rightarrow> string" where
  "message e =
     (case e of
        TypeError \<Rightarrow> ''Cannot convert object to primitive value''
      | Error m \<Rightarrow> m)"

text \<open>Sequencing: the first error ends the computation.\<close>

fun and_then :: "'e + 'a \<Rightarrow> ('a \<Rightarrow> 'e + 'b) \<Rightarrow> 'e + 'b" where
  "and_then (Inl e) f = Inl e"
| "and_then (Inr v) f = f v"

fun for_each :: "('a \<Rightarrow> 'e + 'b) \<Rightarrow> 'a list \<Rightarrow> 'e + 'b list" where
  "for_each f [] = Inr []"
| "for_each f (x # xs) = and_then (f x) (\<lambda>y. and_then (for_each f xs) (\<lambda>ys. Inr (y # ys)))"

datatype jsval =
    JNull
  | JUndefined
  | JBool bool
  | JNum jsnum
  | JStr string
  | JObj "(string \<times> jsval) list"
  | JFunction string
  | JObjectPrototype

subsection \<open>Characters and strings\<close>

definition is_digit :: "char \<Rightarrow> bool" where
  "is_digit c \<longleftrightarrow> c \<in> set ''0123456789''"

definition digit_val :: "char \<Rightarrow> int" where
  "digit_val c = int (of_char c) - 48"

text \<open>The white space and line terminators of ECMAScript among the code units below 256.\<close>

definition is_space :: "char \<Rightarrow> bool" where
  "is_space c \<longleftrightarrow> (of_char c :: nat) \<in> {9, 10, 11, 12, 13, 32, 160}"

definition trim :: "string \<Rightarrow> string" where
  "trim s = rev (dropWhile is_space (rev (dropWhile is_space s)))"

text \<open>\<^verbatim>\<open>s.split('.')\<close>: the empty string splits into one empty segment.\<close>

fun split_on :: "char \<Rightarrow> string \<Rightarrow> string list" where
  "split_on d [] = [[]]"
| "split_on d (c # cs) =
     (if c = d then [] # split_on d cs
      else (case split_on d cs of
              [] \<Rightarrow> [[c]]
            | w # ws \<Rightarrow> (c # w) # ws))"

definition digits_to_int :: "string \<Rightarrow> int" where
  "digits_to_int ds = foldl (\<lambda>a c. 10 * a + digit_val c) 0 ds"

definition digit_char :: "int \<Rightarrow> char" where
  "digit_char n = char_of (48 + nat (n mod 10))"

text \<open>The decimal digits of a non-negative integer, most significant first.\<close>

function int_digits :: "int \<Rightarrow> string \<Rightarrow> string" where
  "int_digits n acc =
     (if n < 10 then digit_char n # acc
      else int_digits (n div 10) (digit_char n # acc))"
  by pat_completeness auto
termination
  by (relation "measure (\<lambda>(n, acc). nat n)") auto

declare int_digits.simps [simp del]

definition int_to_string :: "int \<Rightarrow> string" where
  "int_to_string i = (if i < 0 then CHR ''-'' # int_digits (- i) [] else int_digits i [])"

subsection \<open>Numbers to strings\<close>

text \<open>
  \<^verbatim>\<open>Number::toString\<close> of ECMAScript for a positive finite number \<open>q\<close>: with \<open>s\<close> the
  digits of \<open>q\<close> without trailing zeros, \<open>k\<close> their count and \<open>n\<close> the position of the
  decimal point (\<open>q = 0.s \<times> 10^n\<close>), the result is plain digits for \<open>k \<le> n \<le> 21\<close>, has a
  decimal point inside for \<open>0 < n \<le> 21\<close>, starts with \<open>0.\<close> for \<open>-6 < n \<le> 0\<close> and is in
  exponent notation otherwise. A rational that is no decimal fraction is no double;
  the search for its digits stops at the size of its denominator.
\<close>

fun frac_digits :: "nat \<Rightarrow> rat \<Rightarrow> nat" where
  "frac_digits 0 q = 0"
| "frac_digits (Suc f) q =
     (if snd (quotient_of q) = 1 then 0 else Suc (frac_digits f (q * 10)))"

text \<open>Removing the trailing zeros of a positive integer, and counting them.\<close>

function strip_zeros :: "int \<Rightarrow> int \<times> nat" where
  "strip_zeros m =
     (if 0 < m \<and> m mod 10 = 0
      then (let (s, z) = strip_zeros (m div 10) in (s, Suc z))
      else (m, 0))"
  by pat_completeness auto
termination
  by (relation "measure nat") auto

declare strip_zeros.simps [simp del]

definition pos_rat_to_string :: "rat \<Rightarrow> string" where
  "pos_rat_to_string q =
     (let e = frac_digits (nat (snd (quotient_of q))) q;
          (s, z) = strip_zeros (fst (quotient_of (q * 10 ^ e)));
          ds = int_digits s [];
          k = int (length ds);
          n = k + int z - int e
      in if k \<le> n \<and> n \<le> 21 then ds @ replicate (nat (n - k)) CHR ''0''
         else if 0 < n \<and> n \<le> 21 then take (nat n) ds @ ''.'' @ drop (nat n) ds
         else if - 6 < n \<and> n \<le> 0 then ''0.'' @ replicate (nat (- n)) CHR ''0'' @ ds
         else (if k = 1 then ds else take 1 ds @ ''.'' @ drop 1 ds)
              @ ''e'' @ (if 0 \<le> n - 1 then ''+'' else ''-'') @ int_digits (abs (n - 1)) [])"

fun num_to_string :: "jsnum \<Rightarrow> string" where
  "num_to_string NaN = ''NaN''"
| "num_to_string PosInf = ''Infinity''"
| "num_to_string NegInf = ''-Infinity''"
| "num_to_string (Fin q) =
     (if q = 0 then ''0''
      else if q < 0 then CHR ''-'' # pos_rat_to_string (- q)
      else pos_rat_to_string q)"

subsection \<open>Conversions and operators\<close>



text \<open>
  \<^verbatim>\<open>String(v)\<close>, which is also what a template literal does to \<^verbatim>\<open>${v}\<close> and what
  \<^verbatim>\<open>record[v]\<close> does to a key. An object is converted by calling its \<^verbatim>\<open>toString\<close> and,
  when that is no function or returns no primitive, its \<^verbatim>\<open>valueOf\<close>. A plain object
  inherits \<^verbatim>\<open>toString\<close> from \<^verbatim>\<open>Object.prototype\<close>, which returns \<^verbatim>\<open>[object Object]\<close>.
  An own property \<^verbatim>\<open>toString\<close> holds data and hides the inherited function; then
  \<^verbatim>\<open>valueOf\<close> is either own data too or the inherited function, which returns the
  object itself: no primitive is reached, and the conversion throws a TypeError.
  An own property \<^verbatim>\<open>valueOf\<close> alone does no harm, since \<^verbatim>\<open>toString\<close> is tried first.
\<close>

fun to_String :: "jsval \<Rightarrow> js_error + string" where
  "to_String JNull = Inr ''null''"
| "to_String JUndefined = Inr ''undefined''"
| "to_String (JBool b) = Inr (if b then ''true'' else ''false'')"
| "to_String (JNum n) = Inr (num_to_string n)"
| "to_String (JStr s) = Inr s"
| "to_String (JObj kvs) =
     (if ''toString'' \<in> fst ` set kvs then Inl TypeError else Inr ''[object Object]'')"
| "to_String (JFunction name) = Inr (''function '' @ name @ ''() { [native code] }'')"
| "to_String JObjectPrototype = Inr ''[object Object]''"

text \<open>Truthiness: what \<^verbatim>\<open>!v\<close>, \<^verbatim>\<open>v && ...\<close>, \<^verbatim>\<open>v || ...\<close> and \<^verbatim>\<open>v ? a : b\<close> test.\<close>

fun truthy :: "jsval \<Rightarrow> bool" where
  "truthy JNull = False"
| "truthy JUndefined = False"
| "truthy (JBool b) = b"
| "truthy (JNum n) = (n \<noteq> NaN \<and> n \<noteq> Fin 0)"
| "truthy (JStr s) = (s \<noteq> [])"
| "truthy (JObj kvs) = True"
| "truthy (JFunction name) = True"
| "truthy JObjectPrototype = True"

text \<open>\<^verbatim>\<open>typeof v === 'object'\<close> (true of \<^verbatim>\<open>null\<close>, false of a function).\<close>

fun typeof_object :: "jsval \<Rightarrow> bool" where
  "typeof_object JNull = True"
| "typeof_object (JObj kvs) = True"
| "typeof_object JObjectPrototype = True"
| "typeof_object v = False"

text \<open>\<^verbatim>\<open>v == null\<close>, the test behind \<^verbatim>\<open>v ?? d\<close> and \<^verbatim>\<open>v != null\<close>.\<close>

definition nullish :: "jsval \<Rightarrow> bool" where
  "nullish v \<longleftrightarrow> v = JNull \<or> v = JUndefined"

text \<open>
  The own members of \<^verbatim>\<open>Object.prototype\<close>, which every plain object inherits:
  built-in functions, and the accessor \<^verbatim>\<open>__proto__\<close>, which reads as the prototype.
\<close>

definition object_prototype_functions :: "string list" where
  "object_prototype_functions =
     [''constructor'', ''hasOwnProperty'', ''isPrototypeOf'', ''propertyIsEnumerable'',
      ''toLocaleString'', ''toString'', ''valueOf'', ''__defineGetter__'',
      ''__defineSetter__'', ''__lookupGetter__'', ''__lookupSetter__'']"

definition inherited :: "string \<Rightarrow> bool" where
  "inherited k \<longleftrightarrow> k = ''__proto__'' \<or> k \<in> set object_prototype_functions"

text \<open>\<^verbatim>\<open>key in value\<close>, for a value that is an object.\<close>

fun has_property :: "jsval \<Rightarrow> string \<Rightarrow> bool" where
  "has_property (JObj kvs) k = (k \<in> fst ` set kvs \<or> inherited k)"
| "has_property JObjectPrototype k = inherited k"
| "has_property v k = False"

text \<open>\<^verbatim>\<open>value[key]\<close>; a property that is nowhere on the prototype chain reads as \<^verbatim>\<open>undefined\<close>.\<close>

definition prototype_member :: "jsval \<Rightarrow> string \<Rightarrow> jsval" where
  "prototype_member proto k =
     (if k = ''__proto__'' then proto
      else if k \<in> set object_prototype_functions
      then JFunction (if k = ''constructor'' then ''Object'' else k)
      else JUndefined)"

fun get_property :: "jsval \<Rightarrow> string \<Rightarrow> jsval" where
  "get_property (JObj kvs) k =
     (case map_of kvs k of
        Some v \<Rightarrow> v
      | None \<Rightarrow> prototype_member JObjectPrototype k)"
| "get_property JObjectPrototype k = prototype_member JNull k"
| "get_property v k = JUndefined"

text \<open>\<^verbatim>\<open>Object.keys(value)\<close> of an object.\<close>

fun object_keys :: "jsval \<Rightarrow> string list" where
  "object_keys (JObj kvs) = map fst kvs"
| "object_keys v = []"

subsection \<open>parseInt and parseFloat\<close>

text \<open>
  The Number value of a mathematical integer: the nearest double, a tie going to the
  even significand. An integer of at most 53 bits is a double. A longer one keeps its
  leading 53 bits \<open>q\<close>, rounded by the remaining \<open>s\<close> bits \<open>r\<close>; a magnitude that rounds to
  \<open>2^1024\<close> or more is an infinity.
\<close>

function bit_length :: "int \<Rightarrow> nat" where
  "bit_length n = (if n \<le> 0 then 0 else Suc (bit_length (n div 2)))"
  by pat_completeness auto
termination
  by (relation "measure nat") auto

declare bit_length.simps [simp del]

definition number_of_int :: "int \<Rightarrow> jsnum" where
  "number_of_int i =
     (let n = abs i;
          s = int (bit_length n) - 53
      in if s \<le> 0 then Fin (of_int i)
         else
           (let p = 2 ^ nat s;
                q = n div p;
                r = n mod p;
                m = (if p < 2 * r \<or> (2 * r = p \<and> odd q) then q + 1 else q);
                v = m * p
            in if 2 ^ 1024 \<le> v then (if i < 0 then NegInf else PosInf)
               else Fin (of_int (if i < 0 then - v else v))))"

text \<open>
  \<^verbatim>\<open>parseInt(s, 10)\<close>: leading white space is skipped, one sign is read, then the longest
  run of decimal digits; without a digit the result is NaN, else the Number value of
  the integer that the digits denote.
\<close>

definition read_sign :: "string \<Rightarrow> bool \<times> string" where
  "read_sign s =
     (case s of
        [] \<Rightarrow> (False, [])
      | c # r \<Rightarrow> if c = CHR ''-'' then (True, r)
                 else if c = CHR ''+'' then (False, r)
                 else (False, s))"

definition parseInt10 :: "string \<Rightarrow> jsnum" where
  "parseInt10 s =
     (let (neg, u) = read_sign (dropWhile is_space s);
          ds = takeWhile is_digit u
      in if ds = [] then NaN
         else number_of_int ((if neg then - 1 else 1) * digits_to_int ds))"

text \<open>
  \<^verbatim>\<open>parseFloat(s)\<close>: leading white space is skipped, then the longest prefix that is a
  decimal literal is read: a sign, then \<^verbatim>\<open>Infinity\<close> or digits with an optional
  fraction and an optional exponent.
\<close>

definition read_exponent :: "string \<Rightarrow> int" where
  "read_exponent s =
     (case s of
        [] \<Rightarrow> 0
      | c # r \<Rightarrow>
          if c = CHR ''e'' \<or> c = CHR ''E'' then
            (let (neg, u) = read_sign r; ds = takeWhile is_digit u
             in if ds = [] then 0 else (if neg then - 1 else 1) * digits_to_int ds)
          else 0)"

definition pow10 :: "int \<Rightarrow> rat" where
  "pow10 e = (if 0 \<le> e then 10 ^ nat e else 1 / 10 ^ nat (- e))"

definition parseFloat :: "string \<Rightarrow> jsnum" where
  "parseFloat s =
     (let (neg, u) = read_sign (dropWhile is_space s)
      in if take 8 u = ''Infinity'' then (if neg then NegInf else PosInf)
         else
           (let ip = takeWhile is_digit u;
                r1 = dropWhile is_digit u;
                (fp, r2) = (case r1 of
                              [] \<Rightarrow> ([], [])
                            | c # r \<Rightarrow> if c = CHR ''.''
                                       then (takeWhile is_digit r, dropWhile is_digit r)
                                       else ([], r1))
            in if ip = [] \<and> fp = [] then NaN
               else Fin ((if neg then - 1 else 1)
                         * (of_int (digits_to_int ip)
                            + of_int (digits_to_int fp) / 10 ^ length fp)
                         * pow10 (read_exponent r2))))"

section \<open>The content hasher\<close>

text \<open>
  \<^verbatim>\<open>calculateHash(input)\<close> is
  \<^verbatim>\<open>crypto.createHash('sha256').update(input, 'utf8').digest('hex')\<close>:
  the SHA-256 digest (FIPS 180-4) of the UTF-8 bytes of the input, each byte written as
  two lowercase hexadecimal digits.
\<close>

definition utf8 :: "string \<Rightarrow> 8 word list" where
  "utf8 s =
     concat (map (\<lambda>c. let n = (of_char c :: nat)
                       in if n < 128 then [of_nat n]
                          else [of_nat (192 + n div 64), of_nat (128 + n mod 64)]) s)"

definition hex_digit :: "nat \<Rightarrow> char" where
  "hex_digit n = ''0123456789abcdef'' ! (n mod 16)"

definition hex_of_bytes :: "8 word list \<Rightarrow> string" where
  "hex_of_bytes bs = concat (map (\<lambda>b. [hex_digit (unat b div 16), hex_digit (unat b mod 16)]) bs)"

text \<open>The round constants and the initial hash value of SHA-256, as decimal numerals.\<close>

definition sha_K :: "32 word list" where
  "sha_K = [
    1116352408, 1899447441, 3049323471, 3921009573, 961987163, 1508970993,
    2453635748, 2870763221, 3624381080, 310598401, 607225278, 1426881987,
    1925078388, 2162078206, 2614888103, 3248222580, 3835390401, 4022224774,
    264347078, 604807628, 770255983, 1249150122, 1555081692, 1996064986,
    2554220882, 2821834349, 2952996808, 3210313671, 3336571891, 3584528711,
    113926993, 338241895, 666307205, 773529912, 1294757372, 1396182291,
    1695183700, 1986661051, 2177026350, 2456956037, 2730485921, 2820302411,
    3259730800, 3345764771, 3516065817, 3600352804, 4094571909, 275423344,
    430227734, 506948616, 659060556, 883997877, 958139571, 1322822218,
    1537002063, 1747873779, 1955562222, 2024104815, 2227730452, 2361852424,
    2428436474, 2756734187, 3204031479, 3329325298]"

definition sha_H0 :: "32 word list" where
  "sha_H0 = [
    1779033703, 3144134277, 1013904242, 2773480762, 1359893119, 2600822924,
    528734635, 1541459225]"

definition rotr :: "nat \<Rightarrow> 32 word \<Rightarrow> 32 word" where
  "rotr n x = drop_bit n x OR push_bit (32 - n) x"

definition sha_ch :: "32 word \<Rightarrow> 32 word \<Rightarrow> 32 word \<Rightarrow> 32 word" where
  "sha_ch x y z = (x AND y) XOR (NOT x AND z)"

definition sha_maj :: "32 word \<Rightarrow> 32 word \<Rightarrow> 32 word \<Rightarrow> 32 word" where
  "sha_maj x y z = (x AND y) XOR (x AND z) XOR (y AND z)"

definition big_sigma0 :: "32 word \<Rightarrow> 32 word" where
  "big_sigma0 x = rotr 2 x XOR rotr 13 x XOR rotr 22 x"

definition big_sigma1 :: "32 word \<Rightarrow> 32 word" where
  "big_sigma1 x = rotr 6 x XOR rotr 11 x XOR rotr 25 x"

definition small_sigma0 :: "32 word \<Rightarrow> 32 word" where
  "small_sigma0 x = rotr 7 x XOR rotr 18 x XOR drop_bit 3 x"

definition small_sigma1 :: "32 word \<Rightarrow> 32 word" where
  "small_sigma1 x = rotr 17 x XOR rotr 19 x XOR drop_bit 10 x"

text \<open>Padding: the byte 0x80, zero bytes up to 56 modulo 64, the bit length in 8 bytes.\<close>

definition sha_pad :: "8 word list \<Rightarrow> 8 word list" where
  "sha_pad msg =
     (let l = length msg;
          z = (119 - l mod 64) mod 64;
          bits = (8 * of_nat l :: 64 word)
      in msg @ [128] @ replicate z 0
         @ map (\<lambda>i. ucast (drop_bit (8 * (7 - i)) bits)) [0..<8])"

fun be_words :: "8 word list \<Rightarrow> 32 word list" where
  "be_words (a # b # c # d # r) =
     (push_bit 24 (ucast a) OR push_bit 16 (ucast b) OR push_bit 8 (ucast c) OR ucast d)
     # be_words r"
| "be_words r = []"

fun sha_blocks :: "nat \<Rightarrow> 32 word list \<Rightarrow> 32 word list list" where
  "sha_blocks 0 ws = []"
| "sha_blocks (Suc n) ws = take 16 ws # sha_blocks n (drop 16 ws)"

text \<open>The message schedule, newest word first.\<close>

fun sha_schedule :: "nat \<Rightarrow> 32 word list \<Rightarrow> 32 word list" where
  "sha_schedule 0 w = w"
| "sha_schedule (Suc n) w =
     sha_schedule n ((small_sigma1 (w ! 1) + w ! 6 + small_sigma0 (w ! 14) + w ! 15) # w)"

fun sha_round :: "32 word list \<Rightarrow> 32 word \<times> 32 word \<Rightarrow> 32 word list" where
  "sha_round [a, b, c, d, e, f, g, h] (k, w) =
     (let t1 = h + big_sigma1 e + sha_ch e f g + k + w;
          t2 = big_sigma0 a + sha_maj a b c
      in [t1 + t2, a, b, c, d + t1, e, f, g])"
| "sha_round s kw = s"

definition sha_compress :: "32 word list \<Rightarrow> 32 word list \<Rightarrow> 32 word list" where
  "sha_compress h block =
     map2 (+) h (foldl sha_round h (zip sha_K (rev (sha_schedule 48 (rev block)))))"

definition word_bytes :: "32 word \<Rightarrow> 8 word list" where
  "word_bytes w = [ucast (drop_bit 24 w), ucast (drop_bit 16 w), ucast (drop_bit 8 w), ucast w]"

definition sha256 :: "8 word list \<Rightarrow> 8 word list" where
  "sha256 msg =
     (let p = sha_pad msg
      in concat (map word_bytes
           (foldl sha_compress sha_H0 (sha_blocks (length p div 64) (be_words p)))))"

definition calculateHash :: "string \<Rightarrow> string" where
  "calculateHash input = hex_of_bytes (sha256 (utf8 input))"

section \<open>Canonical records and source configurations\<close>

datatype source_kind = Api | Csv

text \<open>
  \<^verbatim>\<open>ProcessedRecord\<close>. The field \<open>raw_json\<close> holds the value that the loader hands to
  \<^verbatim>\<open>JSON.stringify\<close>; the text of the serialisation is not modelled.
\<close>

record ProcessedRecord =
  kategori :: string
  elemen :: string
  tahun :: "jsnum option"
  nilai :: "jsnum option"
  satuan :: "string option"
  raw_json :: jsval
  source_type :: source_kind
  source_ref :: string
  hash_key :: string

text \<open>
  A compiled \<^verbatim>\<open>RegExp\<close> is given by what \<^verbatim>\<open>key.match(re)\<close> returns: nothing, or the
  match array (the whole match, then the capture groups; a group that took no part
  in the match is \<^verbatim>\<open>undefined\<close>).
\<close>

type_synonym regexp = "string \<Rightarrow> string option list option"

text \<open>
  \<^verbatim>\<open>ApiSourceConfig\<close>. An optional mapping field that is absent is \<open>None\<close>;
  \<open>year_column_regex\<close> is \<open>None\<close> when the pattern is absent or empty (both falsy).
\<close>

record api_mapping =
  elemen_field :: string
  tahun_field :: "string option"
  nilai_field :: "string option"
  satuan_field :: "string option"
  year_column_regex :: "regexp option"
  unit_field :: "string option"

record ApiSourceConfig =
  api_kategori :: string
  resource_id :: string
  api_mapping :: api_mapping

record csv_mapping =
  csv_elemen_field :: string
  csv_tahun_field :: string
  csv_nilai_field :: string
  csv_satuan_field :: string

record CsvSourceConfig =
  csv_kategori :: string
  file_path :: string
  csv_mapping :: csv_mapping

section \<open>Field extractor\<close>

text \<open>
  The loop of both extractors: \<^verbatim>\<open>for (const key of keys)\<close>, leaving with \<^verbatim>\<open>null\<close> as
  soon as the value reached is falsy, is no object or lacks the key.
\<close>

fun walk :: "jsval \<Rightarrow> string list \<Rightarrow> jsval" where
  "walk v [] = v"
| "walk v (key # keys) =
     (if truthy v \<and> typeof_object v \<and> has_property v key
      then walk (get_property v key) keys
      else JNull)"

text \<open>\<^verbatim>\<open>CKANApiLoader.extractField\<close>: the path may be \<^verbatim>\<open>undefined\<close>.\<close>

definition extractField_api :: "jsval \<Rightarrow> string option \<Rightarrow> jsval" where
  "extractField_api record fieldPath =
     (case fieldPath of
        None \<Rightarrow> JNull
      | Some p \<Rightarrow> if p = [] then JNull else walk record (split_on CHR ''.'' p))"

text \<open>\<^verbatim>\<open>CsvLoader.extractField\<close>: the path is a string, and is split unguarded.\<close>

definition extractField_csv :: "jsval \<Rightarrow> string \<Rightarrow> jsval" where
  "extractField_csv record fieldPath = walk record (split_on CHR ''.'' fieldPath)"

section \<open>Numeric normalizers\<close>

text \<open>\<^verbatim>\<open>isNaN(parsed) ? null : parsed\<close>\<close>

definition nan_to_null :: "jsnum \<Rightarrow> jsnum option" where
  "nan_to_null parsed = (if parsed = NaN then None else Some parsed)"

text \<open>\<^verbatim>\<open>CsvLoader.parseIntSafely\<close> and \<^verbatim>\<open>CsvLoader.parseFloatSafely\<close>\<close>

definition parseIntSafely_csv :: "jsval \<Rightarrow> js_error + jsnum option" where
  "parseIntSafely_csv v =
     (if v = JNull \<or> v = JUndefined then Inr None
      else and_then (to_String v) (\<lambda>s.
        if trim s = [] then Inr None
        else (let cleaned = filter (\<lambda>c. is_digit c \<or> c = CHR ''-'') s
              in Inr (nan_to_null (parseInt10 cleaned)))))"

definition parseFloatSafely_csv :: "jsval \<Rightarrow> js_error + jsnum option" where
  "parseFloatSafely_csv v =
     (if v = JNull \<or> v = JUndefined then Inr None
      else and_then (to_String v) (\<lambda>s.
        if trim s = [] then Inr None
        else (let cleaned = filter (\<lambda>c. c \<noteq> CHR '','')
                              (filter (\<lambda>c. is_digit c \<or> c \<in> set ''.,-'') s)
              in Inr (nan_to_null (parseFloat cleaned)))))"

text \<open>\<^verbatim>\<open>CKANApiLoader.parseIntSafely\<close> and \<^verbatim>\<open>CKANApiLoader.parseFloatSafely\<close>\<close>

definition parseIntSafely_api :: "jsval \<Rightarrow> js_error + jsnum option" where
  "parseIntSafely_api v =
     (if v = JNull \<or> v = JUndefined \<or> v = JStr [] then Inr None
      else and_then (to_String v) (\<lambda>s. Inr (nan_to_null (parseInt10 s))))"

definition parseFloatSafely_api :: "jsval \<Rightarrow> js_error + jsnum option" where
  "parseFloatSafely_api v =
     (if v = JNull \<or> v = JUndefined \<or> v = JStr [] then Inr None
      else and_then (to_String v) (\<lambda>s.
        Inr (nan_to_null (parseFloat (filter (\<lambda>c. c \<noteq> CHR '','') s)))))"

section \<open>The record transforms\<close>

text \<open>An optional mapping field used as a condition: absent and empty are falsy.\<close>

definition field_set :: "string option \<Rightarrow> bool" where
  "field_set f = (case f of None \<Rightarrow> False | Some p \<Rightarrow> p \<noteq> [])"

text \<open>\<^verbatim>\<open>${x}\<close> in the hash input, for a field that may be \<^verbatim>\<open>null\<close>.\<close>

definition tpl_num :: "jsnum option \<Rightarrow> string" where
  "tpl_num x = (case x of None \<Rightarrow> ''null'' | Some n \<Rightarrow> num_to_string n)"

definition tpl_str :: "string option \<Rightarrow> string" where
  "tpl_str x = (case x of None \<Rightarrow> ''null'' | Some s \<Rightarrow> s)"

text \<open>\<^verbatim>\<open>mkHash\<close> of \<^verbatim>\<open>CKANApiLoader.transformRecord\<close>\<close>

definition mkHash ::
  "ApiSourceConfig \<Rightarrow> string \<Rightarrow> jsnum option \<Rightarrow> jsnum option \<Rightarrow> string option \<Rightarrow> string" where
  "mkHash sourceConfig el th nl st =
     calculateHash (api_kategori sourceConfig @ ''|'' @ el @ ''|'' @ tpl_num th @ ''|''
                    @ tpl_num nl @ ''|'' @ tpl_str st @ ''|'' @ resource_id sourceConfig)"

text \<open>\<^verbatim>\<open>String(this.extractField(record, map.elemen_field) ?? '').trim()\<close>\<close>

definition api_elemen :: "ApiSourceConfig \<Rightarrow> jsval \<Rightarrow> js_error + string" where
  "api_elemen sourceConfig record =
     (let e = extractField_api record (Some (elemen_field (api_mapping sourceConfig)))
      in and_then (to_String (if nullish e then JStr [] else e)) (\<lambda>s. Inr (trim s)))"

text \<open>\<^verbatim>\<open>(s != null && String(s).trim() !== '') ? String(s).trim() : null\<close>\<close>

definition api_unit :: "jsval \<Rightarrow> js_error + string option" where
  "api_unit s =
     (if nullish s then Inr None
      else and_then (to_String s) (\<lambda>t. Inr (if trim t \<noteq> [] then Some (trim t) else None)))"

text \<open>\<^verbatim>\<open>m[1]\<close> of a match array\<close>

definition capture1 :: "string option list \<Rightarrow> jsval" where
  "capture1 m = (case drop 1 m of Some g # rest \<Rightarrow> JStr g | _ \<Rightarrow> JUndefined)"

text \<open>\<^verbatim>\<open>{ ...record, __value_from__: key }\<close>\<close>

definition with_value_from :: "jsval \<Rightarrow> string \<Rightarrow> jsval" where
  "with_value_from record key =
     (let kvs = (case record of JObj kvs \<Rightarrow> kvs | _ \<Rightarrow> [])
      in JObj (if ''__value_from__'' \<in> fst ` set kvs
               then map (\<lambda>(k, v). if k = ''__value_from__'' then (k, JStr key) else (k, v)) kvs
               else kvs @ [(''__value_from__'', JStr key)]))"

text \<open>
  The body of the loop over \<^verbatim>\<open>Object.keys(record)\<close> in wide mode: what one key adds to
  \<^verbatim>\<open>out\<close>.
\<close>

definition wide_step ::
  "ApiSourceConfig \<Rightarrow> jsval \<Rightarrow> regexp \<Rightarrow> string \<Rightarrow> string option \<Rightarrow> string
     \<Rightarrow> js_error + ProcessedRecord list" where
  "wide_step sourceConfig record yearRe el st key =
     (case yearRe key of
        None \<Rightarrow> Inr []
      | Some m \<Rightarrow>
          and_then (parseIntSafely_api (capture1 m)) (\<lambda>th.
          and_then (parseFloatSafely_api (get_property record key)) (\<lambda>nl.
            Inr [\<lparr>kategori = api_kategori sourceConfig, elemen = el, tahun = th, nilai = nl,
                  satuan = st, raw_json = with_value_from record key, source_type = Api,
                  source_ref = resource_id sourceConfig,
                  hash_key = mkHash sourceConfig el th nl st\<rparr>])))"

text \<open>
  \<^verbatim>\<open>CKANApiLoader.transformRecord\<close>: long mode when the mapping has a year field and a
  value field, else wide mode when it has a year-column pattern, else no record.
  An error leaves the function at the conversion that throws it, and with it what
  \<^verbatim>\<open>out\<close> held.
\<close>

definition transformRecord_api ::
  "ApiSourceConfig \<Rightarrow> jsval \<Rightarrow> js_error + ProcessedRecord list" where
  "transformRecord_api sourceConfig record =
     (let mapping = api_mapping sourceConfig
      in if field_set (tahun_field mapping) \<and> field_set (nilai_field mapping) then
           and_then (api_elemen sourceConfig record) (\<lambda>el.
             if el = [] then Inr []
             else
               (let tahunRaw = extractField_api record (tahun_field mapping);
                    nilaiRaw = extractField_api record (nilai_field mapping);
                    satuanRaw = (if field_set (satuan_field mapping)
                                 then extractField_api record (satuan_field mapping) else JNull)
                in and_then (parseIntSafely_api tahunRaw) (\<lambda>th.
                   and_then (parseFloatSafely_api nilaiRaw) (\<lambda>nl.
                   and_then (api_unit satuanRaw) (\<lambda>st.
                     Inr [\<lparr>kategori = api_kategori sourceConfig, elemen = el, tahun = th,
                           nilai = nl, satuan = st, raw_json = record, source_type = Api,
                           source_ref = resource_id sourceConfig,
                           hash_key = mkHash sourceConfig el th nl st\<rparr>])))))
         else
           (case year_column_regex mapping of
              Some yearRe \<Rightarrow>
                and_then (api_elemen sourceConfig record) (\<lambda>el.
                  if el = [] then Inr []
                  else
                    (let unitFromMap = (if field_set (unit_field mapping)
                                        then extractField_api record (unit_field mapping)
                                        else JNull);
                         unitFallback = extractField_api record (Some ''Satuan'')
                     in and_then (api_unit (if nullish unitFromMap then unitFallback
                                            else unitFromMap)) (\<lambda>st.
                        and_then (for_each (wide_step sourceConfig record yearRe el st)
                                    (object_keys record)) (\<lambda>chunks.
                          Inr (concat chunks)))))
            | None \<Rightarrow> Inr []))"

text \<open>
  \<^verbatim>\<open>CKANApiLoader.processRecords\<close>: a source record whose transform throws is logged and
  adds nothing.
\<close>

definition processRecords_api :: "ApiSourceConfig \<Rightarrow> jsval list \<Rightarrow> ProcessedRecord list" where
  "processRecords_api sourceConfig records =
     concat (map (\<lambda>record. case transformRecord_api sourceConfig record of
                              Inl error \<Rightarrow> []
                            | Inr chunk \<Rightarrow> chunk) records)"

text \<open>
  \<^verbatim>\<open>CsvLoader.transformRecord\<close>, with the file name that \<^verbatim>\<open>processRecords\<close> passes
  (\<^verbatim>\<open>path.basename(sourceConfig.file_path)\<close>); \<open>None\<close> is the \<^verbatim>\<open>null\<close> of a skipped row.
\<close>

definition transformRecord_csv ::
  "CsvSourceConfig \<Rightarrow> string \<Rightarrow> jsval \<Rightarrow> js_error + ProcessedRecord option" where
  "transformRecord_csv sourceConfig fileName record =
     (let mapping = csv_mapping sourceConfig;
          el = extractField_csv record (csv_elemen_field mapping);
          tahunRaw = extractField_csv record (csv_tahun_field mapping);
          nilaiRaw = extractField_csv record (csv_nilai_field mapping);
          st = extractField_csv record (csv_satuan_field mapping)
      in if \<not> truthy el then Inr None
         else
           and_then (to_String el) (\<lambda>elemenText.
             if trim elemenText = [] then Inr None
             else
               (let cleanElemen = trim elemenText
                in and_then (if truthy tahunRaw then parseIntSafely_csv tahunRaw
                             else Inr None) (\<lambda>th.
                   and_then (if truthy nilaiRaw then parseFloatSafely_csv nilaiRaw
                             else Inr None) (\<lambda>nl.
                   and_then (if truthy st
                             then and_then (to_String st) (\<lambda>satuanText.
                                    Inr (if trim satuanText \<noteq> []
                                         then Some (trim satuanText) else None))
                             else Inr None) (\<lambda>cleanSatuan.
                     (let hashInput = csv_kategori sourceConfig @ ''|'' @ cleanElemen @ ''|''
                                      @ tpl_num th @ ''|'' @ tpl_num nl @ ''|''
                                      @ tpl_str cleanSatuan @ ''|'' @ fileName
                      in Inr (Some \<lparr>kategori = csv_kategori sourceConfig, elemen = cleanElemen,
                                    tahun = th, nilai = nl, satuan = cleanSatuan,
                                    raw_json = record, source_type = Csv, source_ref = fileName,
                                    hash_key = calculateHash hashInput\<rparr>))))))))"

text \<open>
  \<^verbatim>\<open>CsvLoader.processRecords\<close>: a row whose transform throws is logged and skipped, as a
  row whose transform returns \<^verbatim>\<open>null\<close> is.
\<close>

definition processRecords_csv ::
  "CsvSourceConfig \<Rightarrow> string \<Rightarrow> jsval list \<Rightarrow> ProcessedRecord list" where
  "processRecords_csv sourceConfig fileName records =
     List.map_filter (\<lambda>record. case transformRecord_csv sourceConfig fileName record of
                                  Inl error \<Rightarrow> None
                                | Inr processed \<Rightarrow> processed) records"

text \<open>
  The spreadsheet path of \<^verbatim>\<open>CsvLoader.loadExcel\<close>, from the rows that
  \<^verbatim>\<open>sheet_to_json\<close> returns (arrays of cells, the header row first).
  \<^verbatim>\<open>record[header] = row[index] || ''\<close>: the header is turned into a property key as
  \<^verbatim>\<open>String\<close> does; a cell beyond the end of the row reads as \<^verbatim>\<open>undefined\<close>; an
  assignment to \<^verbatim>\<open>__proto__\<close> of a cell value creates no property. A new key is put
  last, also where \<^verbatim>\<open>Object.keys\<close> would list an integer key first: the file loader
  never enumerates the keys.
\<close>

definition row_cell :: "jsval list \<Rightarrow> nat \<Rightarrow> jsval" where
  "row_cell row index = (if index < length row then row ! index else JUndefined)"

definition cell_or_empty :: "jsval \<Rightarrow> jsval" where
  "cell_or_empty c = (if truthy c then c else JStr [])"

definition set_property :: "(string \<times> jsval) list \<Rightarrow> string \<Rightarrow> jsval \<Rightarrow> (string \<times> jsval) list" where
  "set_property kvs k v =
     (if k = ''__proto__'' then kvs
      else if k \<in> fst ` set kvs then map (\<lambda>(k', v'). if k' = k then (k', v) else (k', v')) kvs
      else kvs @ [(k, v)])"

text \<open>The body of \<^verbatim>\<open>dataRows.map\<close>, for the property keys of the headers.\<close>

definition excel_row_to_record :: "string list \<Rightarrow> jsval list \<Rightarrow> jsval" where
  "excel_row_to_record headers row =
     JObj (foldl (\<lambda>kvs (header, index). set_property kvs header (cell_or_empty (row_cell row index)))
                 [] (zip headers [0..<length headers]))"

text \<open>The property keys of the header row; a header without a string is an error.\<close>

definition property_keys :: "jsval list \<Rightarrow> js_error + string list" where
  "property_keys headers = for_each to_String headers"

text \<open>
  The first row gives the field names and every further row one record. Without a
  further row no header is looked at. An error is thrown again as
  \<^verbatim>\<open>new Error(`Failed to parse Excel file: ${error.message}`)\<close>.
\<close>

definition loadExcel_records :: "jsval list list \<Rightarrow> js_error + jsval list" where
  "loadExcel_records records =
     (case records of
        [] \<Rightarrow> Inr []
      | headers # dataRows \<Rightarrow>
          if dataRows = [] then Inr []
          else (case property_keys headers of
                  Inl error \<Rightarrow> Inl (Error (''Failed to parse Excel file: '' @ message error))
                | Inr keys \<Rightarrow> Inr (map (excel_row_to_record keys) dataRows)))"

section \<open>The integer normalizer\<close>




text \<open>An object whose conversion to a string throws, and a run of 310 digits.\<close>

definition unprintable :: jsval where
  "unprintable = JObj [(''toString'', JNum (Fin 1))]"


section \<open>The wide-mode example\<close>

text \<open>
  The pattern \<^verbatim>\<open>Data (\d{4})\<close> compiled: the leftmost place of the key where
  \<^verbatim>\<open>Data\<close> and a space are followed by four digits. The match array holds the nine
  matched characters and, as its first group, the four digits.
\<close>

fun match_data_year :: regexp where
  "match_data_year [] = None"
| "match_data_year (c # cs) =
     (let s = c # cs; y = take 4 (drop 5 s)
      in if take 5 s = ''Data '' \<and> length y = 4 \<and> list_all is_digit y
         then Some [Some (take 9 s), Some y]
         else match_data_year cs)"

definition wide_mapping :: api_mapping where
  "wide_mapping =
     \<lparr>elemen_field = ''Elemen'', tahun_field = None, nilai_field = None, satuan_field = None,
      year_column_regex = Some match_data_year, unit_field = None\<rparr>"

definition wide_example_record :: jsval where
  "wide_example_record =
     JObj [(''Elemen'', JStr ''Jumlah Penduduk''), (''Data 2019'', JStr ''1.200''),
           (''Data 2020'', JStr ''1350''), (''Satuan'', JStr ''Orang'')]"

declare match_data_year.simps [simp del]

section \<open>The field extractor of the specification\<close>

text \<open>
  The field extractor as the specification words it: the record is a mapping, the
  path is walked key by key through nested mappings, and the result is missing when
  a segment is absent or an intermediate value is no mapping.
\<close>

fun spec_lookup :: "jsval \<Rightarrow> string list \<Rightarrow> jsval option" where
  "spec_lookup v [] = Some v"
| "spec_lookup v (key # keys) =
     (case v of
        JObj kvs \<Rightarrow> (case map_of kvs key of None \<Rightarrow> None | Some w \<Rightarrow> spec_lookup w keys)
      | _ \<Rightarrow> None)"

definition or_missing :: "jsval option \<Rightarrow> jsval" where
  "or_missing r = (case r of None \<Rightarrow> JNull | Some v \<Rightarrow> v)"

text \<open>An empty or undefined path always yields missing.\<close>

definition spec_extract :: "jsval \<Rightarrow> string option \<Rightarrow> jsval" where
  "spec_extract record path =
     (case path of
        None \<Rightarrow> JNull
      | Some p \<Rightarrow> if p = [] then JNull else or_missing (spec_lookup record (split_on CHR ''.'' p)))"

text \<open>No segment of the path names a member of \<^verbatim>\<open>Object.prototype\<close>.\<close>

definition own_path :: "string \<Rightarrow> bool" where
  "own_path p = list_all (\<lambda>k. \<not> inherited k) (split_on CHR ''.'' p)"

section \<open>The fingerprint of the specification\<close>

text \<open>
  The pipe-joined string of the identity fields of a canonical record, in the order
  category, element, year, value, unit, source reference; an absent year, value or
  unit is written \<^verbatim>\<open>null\<close>.
\<close>

definition fingerprint_input :: "ProcessedRecord \<Rightarrow> string" where
  "fingerprint_input r =
     kategori r @ ''|'' @ elemen r @ ''|'' @ tpl_num (tahun r) @ ''|'' @ tpl_num (nilai r)
     @ ''|'' @ tpl_str (satuan r) @ ''|'' @ source_ref r"

definition lower_hex :: "string \<Rightarrow> bool" where
  "lower_hex s = list_all (\<lambda>c. c \<in> set ''0123456789abcdef'') s"

text \<open>A record that one of the two loaders emits for some source record.\<close>

definition emitted_by_api :: "ApiSourceConfig \<Rightarrow> jsval \<Rightarrow> ProcessedRecord \<Rightarrow> bool" where
  "emitted_by_api sourceConfig record r \<longleftrightarrow>
     (case transformRecord_api sourceConfig record of
        Inl error \<Rightarrow> False
      | Inr out \<Rightarrow> r \<in> set out)"

definition emitted_by_csv :: "CsvSourceConfig \<Rightarrow> string \<Rightarrow> jsval \<Rightarrow> ProcessedRecord \<Rightarrow> bool" where
  "emitted_by_csv sourceConfig fileName record r \<longleftrightarrow>
     transformRecord_csv sourceConfig fileName record = Inr (Some r)"

text \<open>A long-mode mapping.\<close>

definition long_mapping :: api_mapping where
  "long_mapping =
     \<lparr>elemen_field = ''Elemen'', tahun_field = Some ''Tahun'', nilai_field = Some ''Nilai'',
      satuan_field = Some ''Satuan'', year_column_regex = None, unit_field = None\<rparr>"

text \<open>A long-mode source record with the identity fields of the wide-mode example for 2019.\<close>

definition long_twin_record :: jsval where
  "long_twin_record =
     JObj [(''Elemen'', JStr '' Jumlah Penduduk ''), (''Tahun'', JNum (Fin 2019)),
           (''Nilai'', JStr ''1.2''), (''Satuan'', JStr ''Orang'')]"

section \<open>Missing and blank elements\<close>

text \<open>A missing value, or a string that is empty after trimming.\<close>

fun missing_or_blank :: "jsval \<Rightarrow> bool" where
  "missing_or_blank JNull = True"
| "missing_or_blank JUndefined = True"
| "missing_or_blank (JStr s) = (trim s = [])"
| "missing_or_blank v = False"

text \<open>The long-mode example of the specification and a wide-mode record without element.\<close>

definition long_example_record :: jsval where
  "long_example_record =
     JObj [(''Elemen'', JStr []), (''Tahun'', JNum (Fin 2021)), (''Nilai'', JNum (Fin 5))]"

definition wide_blank_record :: jsval where
  "wide_blank_record =
     JObj [(''Elemen'', JStr ''  ''), (''Data 2019'', JStr ''1.200''), (''Data 2020'', JStr ''1350'')]"

definition file_mapping :: csv_mapping where
  "file_mapping =
     \<lparr>csv_elemen_field = ''Elemen'', csv_tahun_field = ''Tahun'', csv_nilai_field = ''Nilai'',
      csv_satuan_field = ''Satuan''\<rparr>"

section \<open>Spreadsheets with zero cells\<close>

text \<open>A sheet whose one data row has the number 0 in its year cell and its value cell.\<close>

definition sheet_headers :: "string list" where
  "sheet_headers = [''Elemen'', ''Tahun'', ''Nilai'', ''Satuan'']"

definition sheet_row :: "jsval list" where
  "sheet_row = [JStr ''Jumlah Penduduk'', JNum (Fin 0), JNum (Fin 0), JStr ''Orang'']"


definition sheet_config :: CsvSourceConfig where
  "sheet_config =
     \<lparr>csv_kategori = ''kependudukan'', file_path = ''data/penduduk.xlsx'',
      csv_mapping = file_mapping\<rparr>"



section \<open>A source record that cannot be converted\<close>

text \<open>A long-mode source record whose year is an object with an own property \<^verbatim>\<open>toString\<close>.\<close>

definition unprintable_year_record :: jsval where
  "unprintable_year_record =
     JObj [(''Elemen'', JStr ''Jumlah Penduduk''), (''Tahun'', unprintable),
           (''Nilai'', JStr ''5'')]"

definition unprintable_header_sheet :: "jsval list list" where
  "unprintable_header_sheet = [[JStr ''Elemen'', unprintable], sheet_row]"

section \<open>The year floor of the driver\<close>

text \<open>
  \<^verbatim>\<open>options.since\<close> is the \<^verbatim>\<open>parseInt\<close> of the command-line option, or absent.
  \<^verbatim>\<open>if (options.since)\<close> tests its truthiness.
\<close>

definition num_truthy :: "jsnum \<Rightarrow> bool" where
  "num_truthy n \<longleftrightarrow> n \<noteq> NaN \<and> n \<noteq> Fin 0"

text \<open>\<^verbatim>\<open>a >= b\<close> on numbers: false when one side is NaN.\<close>

fun js_ge :: "jsnum \<Rightarrow> jsnum \<Rightarrow> bool" where
  "js_ge NaN b = False"
| "js_ge a NaN = False"
| "js_ge PosInf b = True"
| "js_ge a NegInf = True"
| "js_ge NegInf b = False"
| "js_ge a PosInf = False"
| "js_ge (Fin x) (Fin y) = (y \<le> x)"

text \<open>\<^verbatim>\<open>r => !r.tahun || r.tahun >= options.since\<close>\<close>

definition since_keeps :: "jsnum \<Rightarrow> ProcessedRecord \<Rightarrow> bool" where
  "since_keeps since r =
     (case tahun r of
        None \<Rightarrow> True
      | Some t \<Rightarrow> \<not> num_truthy t \<or> js_ge t since)"

text \<open>The filter step of \<^verbatim>\<open>EtlRunner.processApiSource\<close>\<close>

definition since_filter_api :: "jsnum option \<Rightarrow> ProcessedRecord list \<Rightarrow> ProcessedRecord list" where
  "since_filter_api since records =
     (case since of
        None \<Rightarrow> records
      | Some s \<Rightarrow> if num_truthy s then filter (since_keeps s) records else records)"

text \<open>The filter step of \<^verbatim>\<open>EtlRunner.processCsvSource\<close>\<close>

definition since_filter_csv :: "jsnum option \<Rightarrow> ProcessedRecord list \<Rightarrow> ProcessedRecord list" where
  "since_filter_csv since records =
     (case since of
        None \<Rightarrow> records
      | Some s \<Rightarrow> if num_truthy s then filter (since_keeps s) records else records)"

text \<open>A number strictly below another (\<^verbatim>\<open>a < b\<close>), and a record that the floor drops.\<close>

fun strictly_below :: "jsnum \<Rightarrow> jsnum \<Rightarrow> bool" where
  "strictly_below (Fin x) (Fin y) = (x < y)"
| "strictly_below (Fin x) PosInf = True"
| "strictly_below NegInf (Fin y) = True"
| "strictly_below NegInf PosInf = True"
| "strictly_below a b = False"

definition dropped_by_floor :: "jsnum \<Rightarrow> ProcessedRecord \<Rightarrow> bool" where
  "dropped_by_floor since r =
     (case tahun r of
        None \<Rightarrow> False
      | Some t \<Rightarrow> t \<noteq> Fin 0 \<and> strictly_below t since)"

definition year_record :: "source_kind \<Rightarrow> jsnum option \<Rightarrow> ProcessedRecord" where
  "year_record kind t =
     \<lparr>kategori = ''kependudukan'', elemen = ''Jumlah Penduduk'', tahun = t, nilai = Some (Fin 5),
      satuan = None, raw_json = JNull, source_type = kind, source_ref = ''res-1'',
      hash_key = calculateHash (''kependudukan|Jumlah Penduduk|'' @ tpl_num t @ ''|5|null|res-1'')\<rparr>"

section \<open>The store\<close>

text \<open>
  The tables of \<^verbatim>\<open>init.sql\<close> that the claims are about. A row of \<^verbatim>\<open>facts_long\<close> has
  the columns of a canonical record and \<^verbatim>\<open>id\<close>, \<^verbatim>\<open>ingested_at\<close>, \<^verbatim>\<open>updated_at\<close>;
  \<^verbatim>\<open>hash_key\<close> is a unique key. Times are whole seconds, and one clock serves the
  client and the server. Values are stored as they are given (the rounding of
  \<^verbatim>\<open>DECIMAL(18,4)\<close> and the collation of strings are not modelled); a statement that
  the server rejects is a failed statement.
\<close>

record fact_row = ProcessedRecord +
  row_id :: nat
  ingested_at :: nat
  updated_at :: nat

text \<open>A row of \<^verbatim>\<open>etl_checkpoints\<close>; the column \<^verbatim>\<open>last_offset\<close> may be \<^verbatim>\<open>NULL\<close>.\<close>

record checkpoint =
  cp_source_type :: source_kind
  cp_source_ref :: string
  last_offset :: "int option"
  last_processed_at :: nat

text \<open>
  \<^verbatim>\<open>DatabaseManager\<close> with its store: whether \<^verbatim>\<open>this.connection\<close> is set, the flag
  \<^verbatim>\<open>CLIENT_FOUND_ROWS\<close> of the connection, the two tables and the next
  \<^verbatim>\<open>AUTO_INCREMENT\<close> value.
\<close>

record database =
  connection :: bool
  client_found_rows :: bool
  facts_long :: "fact_row list"
  etl_checkpoints :: "checkpoint list"
  next_id :: nat

datatype db_error = ConnectionNotEstablished | QueryFailed

record UpsertResult =
  inserted :: int
  updated :: int
  skipped :: int
  errors :: int

definition no_result :: UpsertResult where
  "no_result = \<lparr>inserted = 0, updated = 0, skipped = 0, errors = 0\<rparr>"

text \<open>
  \<^verbatim>\<open>INSERT INTO facts_long (...) VALUES (...) ON DUPLICATE KEY UPDATE ...\<close>, one tuple
  of values at a time. Without a row of the same \<^verbatim>\<open>hash_key\<close> a row is inserted
  (one affected row). Otherwise the six columns of the \<^verbatim>\<open>UPDATE\<close> list are set on
  that row: two affected rows when the row changes, and when it is set to its current
  values one affected row with \<^verbatim>\<open>CLIENT_FOUND_ROWS\<close> and none without.
\<close>

definition insert_values :: "ProcessedRecord \<Rightarrow> nat \<Rightarrow> nat \<Rightarrow> fact_row" where
  "insert_values r nid now =
     \<lparr>kategori = kategori r, elemen = elemen r, tahun = tahun r, nilai = nilai r,
      satuan = satuan r, raw_json = raw_json r, source_type = source_type r,
      source_ref = source_ref r, hash_key = hash_key r,
      row_id = nid, ingested_at = now, updated_at = now\<rparr>"

definition on_duplicate_update :: "ProcessedRecord \<Rightarrow> nat \<Rightarrow> fact_row \<Rightarrow> fact_row" where
  "on_duplicate_update r now row =
     row\<lparr>nilai := nilai r, satuan := satuan r, raw_json := raw_json r,
         source_type := source_type r, source_ref := source_ref r, updated_at := now\<rparr>"

fun update_first :: "('a \<Rightarrow> bool) \<Rightarrow> ('a \<Rightarrow> 'a) \<Rightarrow> 'a list \<Rightarrow> 'a list" where
  "update_first P f [] = []"
| "update_first P f (x # xs) = (if P x then f x # xs else x # update_first P f xs)"

definition upsert_row ::
  "bool \<Rightarrow> nat \<Rightarrow> fact_row list \<times> nat \<times> nat \<Rightarrow> ProcessedRecord \<Rightarrow> fact_row list \<times> nat \<times> nat" where
  "upsert_row found now st r =
     (case st of (rows, nid, affected) \<Rightarrow>
        (case find (\<lambda>row. hash_key row = hash_key r) rows of
           None \<Rightarrow> (rows @ [insert_values r nid now], Suc nid, affected + 1)
         | Some old \<Rightarrow>
             (update_first (\<lambda>row. hash_key row = hash_key r) (on_duplicate_update r now) rows,
              nid,
              affected + (if on_duplicate_update r now old \<noteq> old then 2
                          else if found then 1 else 0))))"

text \<open>
  \<^verbatim>\<open>DatabaseManager.upsertRecords\<close>, run at the server time \<open>now\<close>; \<open>fails\<close> says
  whether the transaction raises, in which case it is rolled back and the error is
  thrown to the caller.
\<close>

definition upsertRecords ::
  "bool \<Rightarrow> nat \<Rightarrow> database \<Rightarrow> ProcessedRecord list \<Rightarrow> db_error + database \<times> UpsertResult" where
  "upsertRecords fails now db records =
     (if \<not> connection db then Inl ConnectionNotEstablished
      else if records = [] then Inr (db, no_result)
      else if fails then Inl QueryFailed
      else
        (case foldl (upsert_row (client_found_rows db) now) (facts_long db, next_id db, 0) records of
           (rows, nid, affectedRows) \<Rightarrow>
             (let upd = int affectedRows - int (length records);
                  ins = int (length records) - max upd 0
              in Inr (db\<lparr>facts_long := rows, next_id := nid\<rparr>,
                      \<lparr>inserted = max ins 0, updated = max upd 0, skipped = 0, errors = 0\<rparr>))))"

text \<open>Two calls of \<^verbatim>\<open>upsertRecords\<close> with the same single record, at the times \<open>t1\<close> and \<open>t2\<close>.\<close>

definition upsert_twice ::
  "nat \<Rightarrow> nat \<Rightarrow> database \<Rightarrow> ProcessedRecord
     \<Rightarrow> db_error + database \<times> UpsertResult \<times> UpsertResult" where
  "upsert_twice t1 t2 db r =
     (case upsertRecords False t1 db [r] of
        Inl e \<Rightarrow> Inl e
      | Inr (db1, res1) \<Rightarrow>
          (case upsertRecords False t2 db1 [r] of
             Inl e \<Rightarrow> Inl e
           | Inr (db2, res2) \<Rightarrow> Inr (db2, res1, res2)))"

text \<open>The columns that identify a stored row and are outside the \<^verbatim>\<open>UPDATE\<close> list.\<close>

definition same_identity :: "fact_row \<Rightarrow> fact_row \<Rightarrow> bool" where
  "same_identity old new \<longleftrightarrow>
     row_id new = row_id old \<and> kategori new = kategori old \<and> elemen new = elemen old
     \<and> tahun new = tahun old \<and> hash_key new = hash_key old \<and> ingested_at new = ingested_at old"

text \<open>
  \<^verbatim>\<open>DatabaseManager.getCheckpoint\<close>; \<open>fails\<close> says whether the query raises. The result
  is the \<^verbatim>\<open>last_offset\<close> of the first row found, which is \<^verbatim>\<open>null\<close> for a \<^verbatim>\<open>NULL\<close>.
\<close>

definition getCheckpoint ::
  "bool \<Rightarrow> database \<Rightarrow> source_kind \<Rightarrow> string \<Rightarrow> db_error + int option" where
  "getCheckpoint fails db sourceType sourceRef =
     (if \<not> connection db then Inl ConnectionNotEstablished
      else if fails then Inr (Some 0)
      else
        (case filter (\<lambda>c. cp_source_type c = sourceType \<and> cp_source_ref c = sourceRef)
                (etl_checkpoints db) of
           [] \<Rightarrow> Inr (Some 0)
         | c # rest \<Rightarrow> Inr (last_offset c)))"

text \<open>An empty store with an open connection, and one without connection.\<close>

definition empty_store :: database where
  "empty_store =
     \<lparr>connection = True, client_found_rows = True, facts_long = [], etl_checkpoints = [],
      next_id = 1\<rparr>"

definition closed_store :: database where
  "closed_store =
     \<lparr>connection = False, client_found_rows = True, facts_long = [],
      etl_checkpoints = [\<lparr>cp_source_type = Api, cp_source_ref = ''res-1'', last_offset = Some 300,
                          last_processed_at = 1700000000\<rparr>],
      next_id = 1\<rparr>"

text \<open>
  A store that holds one record, and a record with the fingerprint of that record and
  another raw payload.
\<close>

definition stored_once :: database where
  "stored_once =
     empty_store\<lparr>facts_long := [insert_values (year_record Api None) 1 100], next_id := 2\<rparr>"

definition twin_record :: ProcessedRecord where
  "twin_record = (year_record Api None)\<lparr>raw_json := JObj [(''Elemen'', JStr ''Jumlah Penduduk'')]\<rparr>"

section \<open>The batch upsert\<close>

text \<open>\<^verbatim>\<open>xs.slice(start, end)\<close>: a negative index counts from the end of the array.\<close>

definition js_slice :: "'a list \<Rightarrow> int \<Rightarrow> int \<Rightarrow> 'a list" where
  "js_slice xs start end =
     (let n = int (length xs);
          k = (if start < 0 then max (n + start) 0 else min start n);
          e = (if end < 0 then max (n + end) 0 else min end n)
      in take (nat (e - k)) (drop (nat k) xs))"

text \<open>
  What the store does to the chunk that starts at index \<open>i\<close>: whether its transaction
  fails, and the server time at which it runs.
\<close>

type_synonym world = "int \<Rightarrow> bool \<times> nat"

text \<open>The body of the loop of \<^verbatim>\<open>batchUpsertRecords\<close>, with its \<^verbatim>\<open>try\<close> and \<^verbatim>\<open>catch\<close>.\<close>

definition batch_body ::
  "world \<Rightarrow> ProcessedRecord list \<Rightarrow> int \<Rightarrow> int \<Rightarrow> database \<times> UpsertResult
     \<Rightarrow> database \<times> UpsertResult" where
  "batch_body w records batchSize i st =
     (case st of (db, totalResult) \<Rightarrow>
        (let batch = js_slice records i (i + batchSize)
         in case upsertRecords (fst (w i)) (snd (w i)) db batch of
              Inr (db', batchResult) \<Rightarrow>
                (db', \<lparr>inserted = inserted totalResult + inserted batchResult,
                       updated = updated totalResult + updated batchResult,
                       skipped = skipped totalResult + skipped batchResult,
                       errors = errors totalResult + errors batchResult\<rparr>)
            | Inl e \<Rightarrow>
                (db, totalResult\<lparr>errors := errors totalResult + int (length batch)\<rparr>)))"

text \<open>
  \<^verbatim>\<open>for (let i = 0; i < records.length; i += batchSize)\<close>: the loop need not end, so
  not returning is the value \<open>None\<close>.
\<close>

partial_function (option) batch_loop ::
  "world \<Rightarrow> ProcessedRecord list \<Rightarrow> int \<Rightarrow> int \<Rightarrow> database \<times> UpsertResult
     \<Rightarrow> (database \<times> UpsertResult) option" where
  "batch_loop w records batchSize i st =
     (if i < int (length records)
      then batch_loop w records batchSize (i + batchSize) (batch_body w records batchSize i st)
      else Some st)"

text \<open>\<^verbatim>\<open>DatabaseManager.batchUpsertRecords\<close>; an absent chunk size is 1000.\<close>

definition batchUpsertRecords ::
  "world \<Rightarrow> database \<Rightarrow> ProcessedRecord list \<Rightarrow> int option
     \<Rightarrow> (database \<times> UpsertResult) option" where
  "batchUpsertRecords w db records batchSize =
     batch_loop w records (case batchSize of None \<Rightarrow> 1000 | Some b \<Rightarrow> b) 0 (db, no_result)"

text \<open>
  The batch upsert as the specification words it: the batch is split into
  consecutive chunks of at most the chunk size, the chunks are attempted one after
  the other, a failed chunk counts its records as errors and leaves the store as it
  was, and the tally is the sum of the results of the chunks.
\<close>

function chunks_of :: "nat \<Rightarrow> 'a list \<Rightarrow> 'a list list" where
  "chunks_of n xs = (if n = 0 \<or> xs = [] then [] else take n xs # chunks_of n (drop n xs))"
  by pat_completeness auto
termination
  by (relation "measure (\<lambda>(n, xs). length xs)") auto

declare chunks_of.simps [simp del]

definition attempt_chunk ::
  "world \<Rightarrow> int \<Rightarrow> database \<Rightarrow> ProcessedRecord list \<Rightarrow> database \<times> UpsertResult" where
  "attempt_chunk w i db chunk =
     (case upsertRecords (fst (w i)) (snd (w i)) db chunk of
        Inr (db', res) \<Rightarrow> (db', res)
      | Inl e \<Rightarrow> (db, no_result\<lparr>errors := int (length chunk)\<rparr>))"

fun attempt_chunks ::
  "world \<Rightarrow> int \<Rightarrow> int \<Rightarrow> database \<Rightarrow> ProcessedRecord list list
     \<Rightarrow> database \<times> UpsertResult list" where
  "attempt_chunks w batchSize i db [] = (db, [])"
| "attempt_chunks w batchSize i db (chunk # rest) =
     (case attempt_chunk w i db chunk of
        (db', res) \<Rightarrow>
          (case attempt_chunks w batchSize (i + batchSize) db' rest of
             (db'', results) \<Rightarrow> (db'', res # results)))"

definition add_result :: "UpsertResult \<Rightarrow> UpsertResult \<Rightarrow> UpsertResult" where
  "add_result a b =
     \<lparr>inserted = inserted a + inserted b, updated = updated a + updated b,
      skipped = skipped a + skipped b, errors = errors a + errors b\<rparr>"

definition sum_results :: "UpsertResult list \<Rightarrow> UpsertResult" where
  "sum_results results = foldl add_result no_result results"

text \<open>A store whose transaction for the chunk at index 2 fails, and one that never fails.\<close>

definition failing_world :: world where
  "failing_world i = (i = 2, 1700000000 + nat i)"

definition steady_world :: world where
  "steady_world i = (False, 1700000000)"

section \<open>Sequencing of computations that can throw\<close>

lemma and_then_Inr_iff: "and_then x f = Inr y \<longleftrightarrow> (\<exists>v. x = Inr v \<and> f v = Inr y)"
  by (cases x) auto

lemma for_each_member:
  "for_each f xs = Inr ys \<Longrightarrow> y \<in> set ys \<Longrightarrow> \<exists>x \<in> set xs. f x = Inr y"
proof (induction xs arbitrary: ys)
  case Nil
  then show ?case by simp
next
  case (Cons x xs)
  from Cons.prems(1) obtain z zs where z: "f x = Inr z" and zs: "for_each f xs = Inr zs"
    and ys: "ys = z # zs"
    by (auto simp: and_then_Inr_iff)
  show ?case
  proof (cases "y = z")
    case True
    with z show ?thesis by auto
  next
    case False
    with Cons.prems(2) ys have "y \<in> set zs"
      by simp
    with Cons.IH [OF zs] show ?thesis
      by auto
  qed
qed

section \<open>Properties of the integer normalizer\<close>

lemma to_String_error: "to_String v = Inl e \<Longrightarrow> e = TypeError"
  by (cases v) (auto split: if_splits)



















section \<open>Properties of the wide-mode example\<close>

lemma wide_example_elemen:
  "api_elemen \<lparr>api_kategori = k, resource_id = rid, api_mapping = wide_mapping\<rparr>
     wide_example_record = Inr ''Jumlah Penduduk''"
  by code_simp

lemma wide_example_unit:
  "api_unit (extractField_api wide_example_record (Some ''Satuan'')) = Inr (Some ''Orang'')"
  by code_simp

lemma wide_example_keys:
  "object_keys wide_example_record = [''Elemen'', ''Data 2019'', ''Data 2020'', ''Satuan'']"
  by code_simp

lemma wide_example_matches:
  "match_data_year ''Elemen'' = None"
  "match_data_year ''Satuan'' = None"
  "match_data_year ''Data 2019'' = Some [Some ''Data 2019'', Some ''2019'']"
  "match_data_year ''Data 2020'' = Some [Some ''Data 2020'', Some ''2020'']"
  by code_simp+

lemma wide_example_years:
  "parseIntSafely_api (capture1 [Some ''Data 2019'', Some ''2019'']) = Inr (Some (Fin 2019))"
  "parseIntSafely_api (capture1 [Some ''Data 2020'', Some ''2020'']) = Inr (Some (Fin 2020))"
  by code_simp+

lemma wide_example_values:
  "parseFloatSafely_api (get_property wide_example_record ''Data 2019'') = Inr (Some (Fin (6 / 5)))"
  "parseFloatSafely_api (get_property wide_example_record ''Data 2020'') = Inr (Some (Fin 1350))"
  by code_simp+

lemma wide_example_strings:
  "tpl_num (Some (Fin 2019)) = ''2019''"
  "tpl_num (Some (Fin 2020)) = ''2020''"
  "tpl_num (Some (Fin (6 / 5))) = ''1.2''"
  "tpl_num (Some (Fin 1350)) = ''1350''"
  by code_simp+

lemma wide_example_eval:
  "transformRecord_api \<lparr>api_kategori = k, resource_id = rid, api_mapping = wide_mapping\<rparr>
     wide_example_record =
   Inr [\<lparr>kategori = k, elemen = ''Jumlah Penduduk'', tahun = Some (Fin 2019),
     nilai = Some (Fin (6 / 5)), satuan = Some ''Orang'',
     raw_json = with_value_from wide_example_record ''Data 2019'', source_type = Api,
     source_ref = rid,
     hash_key = calculateHash (k @ ''|Jumlah Penduduk|2019|1.2|Orang|'' @ rid)\<rparr>,
    \<lparr>kategori = k, elemen = ''Jumlah Penduduk'', tahun = Some (Fin 2020),
     nilai = Some (Fin 1350), satuan = Some ''Orang'',
     raw_json = with_value_from wide_example_record ''Data 2020'', source_type = Api,
     source_ref = rid,
     hash_key = calculateHash (k @ ''|Jumlah Penduduk|2020|1350|Orang|'' @ rid)\<rparr>]"
proof -
  have mode: "\<not> (field_set (tahun_field wide_mapping) \<and> field_set (nilai_field wide_mapping))"
    "year_column_regex wide_mapping = Some match_data_year"
    "\<not> field_set (unit_field wide_mapping)"
    by (simp_all add: wide_mapping_def field_set_def)
  show ?thesis
    by (simp add: transformRecord_api_def Let_def mode wide_example_elemen nullish_def
        wide_example_unit wide_example_keys wide_step_def wide_example_matches
        wide_example_years wide_example_values mkHash_def wide_example_strings tpl_str_def)
qed

text \<open>
  C1 (as amended). With the pattern \<^verbatim>\<open>Data (\d{4})\<close>, the element field
  \<^verbatim>\<open>Elemen\<close> and no unit field, the wide-mode transform of the example record yields
  exactly two canonical records and no error, for 2019 and for 2020 in this order,
  with the element and the unit of the record. The value of 2020 is 1350. The value of 2019 is 1.2: the
  normalizer removes commas only, and the dot of \<^verbatim>\<open>"1.200"\<close> is a decimal point.
\<close>

theorem wide_mode_example:
  "map_sum id (map (\<lambda>r. (elemen r, tahun r, nilai r, satuan r)))
     (transformRecord_api \<lparr>api_kategori = k, resource_id = rid, api_mapping = wide_mapping\<rparr>
        wide_example_record) =
   Inr [(''Jumlah Penduduk'', Some (Fin 2019), Some (Fin (6 / 5)), Some ''Orang''),
        (''Jumlah Penduduk'', Some (Fin 2020), Some (Fin 1350), Some ''Orang'')]"
  by (simp add: wide_example_eval)

text \<open>C1 as stated fails: the value of the record for 2019 is not 1200.\<close>

theorem wide_mode_example_counterexample:
  "map_sum id (map (\<lambda>r. (elemen r, tahun r, nilai r, satuan r)))
     (transformRecord_api
        \<lparr>api_kategori = ''kependudukan'', resource_id = ''res-1'', api_mapping = wide_mapping\<rparr>
        wide_example_record) \<noteq>
   Inr [(''Jumlah Penduduk'', Some (Fin 2019), Some (Fin 1200), Some ''Orang''),
        (''Jumlah Penduduk'', Some (Fin 2020), Some (Fin 1350), Some ''Orang'')]"
  by (simp add: wide_example_eval)

section \<open>Properties of the field extractor\<close>

lemma walk_spec_lookup:
  "list_all (\<lambda>k. \<not> inherited k) keys \<Longrightarrow> walk v keys = or_missing (spec_lookup v keys)"
proof (induction keys arbitrary: v)
  case Nil
  then show ?case by (simp add: or_missing_def)
next
  case (Cons key keys)
  then have own: "\<not> inherited key" and rest: "list_all (\<lambda>k. \<not> inherited k) keys"
    by simp_all
  show ?case
  proof (cases v)
    case (JObj kvs)
    show ?thesis
    proof (cases "map_of kvs key")
      case None
      then have "key \<notin> fst ` set kvs"
        by (simp add: map_of_eq_None_iff)
      with None JObj own show ?thesis
        by (simp add: or_missing_def)
    next
      case (Some w)
      then have "key \<in> fst ` set kvs"
        by (metis map_of_eq_None_iff option.distinct(1))
      with Some JObj Cons.IH [OF rest, of w] show ?thesis
        by simp
    qed
  qed (simp_all add: or_missing_def own)
qed

text \<open>
  C8 (as amended). For a path none of whose segments names a member of
  \<^verbatim>\<open>Object.prototype\<close>, the API loader's extractor is the extractor of the
  specification: it walks nested mappings key by key and returns the value at the
  last key, or missing when a segment is absent or an intermediate value is no
  mapping, and an empty or undefined path yields missing. The file loader's
  extractor takes a string and has no guard for the empty path: it walks the
  segments of every path in the same way, the empty path being the one key
  \<^verbatim>\<open>""\<close>. Neither has a failing branch.
\<close>

theorem extractField_walks:
  "extractField_api record None = JNull
   \<and> extractField_api record (Some []) = JNull
   \<and> (own_path p \<longrightarrow>
        extractField_api record (Some p) = spec_extract record (Some p)
        \<and> extractField_csv record p = or_missing (spec_lookup record (split_on CHR ''.'' p)))"
proof (intro conjI impI)
  show "extractField_api record None = JNull"
    by (simp add: extractField_api_def)
  show "extractField_api record (Some []) = JNull"
    by (simp add: extractField_api_def)
next
  assume "own_path p"
  then have "walk record (split_on CHR ''.'' p)
             = or_missing (spec_lookup record (split_on CHR ''.'' p))"
    unfolding own_path_def by (rule walk_spec_lookup)
  then show "extractField_api record (Some p) = spec_extract record (Some p)"
    and "extractField_csv record p = or_missing (spec_lookup record (split_on CHR ''.'' p))"
    by (simp_all add: extractField_api_def extractField_csv_def spec_extract_def)
qed

theorem extractField_walks_witness:
  "extractField_api (JObj [(''wilayah'', JObj [(''nama'', JStr ''Sleman'')])])
     (Some ''wilayah.nama'') = JStr ''Sleman''
   \<and> extractField_csv (JObj [(''wilayah'', JObj [(''nama'', JStr ''Sleman'')])])
     ''wilayah.nama'' = JStr ''Sleman''"
proof -
  have h: "own_path ''wilayah.nama''"
    by code_simp
  have v: "spec_extract (JObj [(''wilayah'', JObj [(''nama'', JStr ''Sleman'')])])
             (Some ''wilayah.nama'') = JStr ''Sleman''"
    "or_missing (spec_lookup (JObj [(''wilayah'', JObj [(''nama'', JStr ''Sleman'')])])
             (split_on CHR ''.'' ''wilayah.nama'')) = JStr ''Sleman''"
    by code_simp+
  from extractField_walks [of "JObj [(''wilayah'', JObj [(''nama'', JStr ''Sleman'')])]"
      "''wilayah.nama''"] h v
  show ?thesis by simp
qed

text \<open>
  C8 as stated fails. The file loader's extractor does not yield missing for the
  empty path when the record has a column without a name, and both extractors
  return an inherited member of the record for a segment that is no key of it.
\<close>

theorem extractField_walks_counterexample:
  "extractField_csv (JObj [(''Elemen'', JStr ''Penduduk''), ('''', JStr ''x'')]) '''' = JStr ''x''
   \<and> spec_extract (JObj [(''Elemen'', JStr ''Penduduk''), ('''', JStr ''x'')]) (Some '''') = JNull
   \<and> extractField_api (JObj [(''Elemen'', JStr ''Penduduk'')]) (Some ''toString'')
       = JFunction ''toString''
   \<and> spec_extract (JObj [(''Elemen'', JStr ''Penduduk'')]) (Some ''toString'') = JNull"
  by code_simp

section \<open>Properties of the spreadsheet path\<close>
















lemma sheet_record:
  "excel_row_to_record sheet_headers sheet_row =
     JObj [(''Elemen'', JStr ''Jumlah Penduduk''), (''Tahun'', JStr []), (''Nilai'', JStr []),
           (''Satuan'', JStr ''Orang'')]"
  by code_simp


lemma sheet_fields:
  "extractField_csv (excel_row_to_record sheet_headers sheet_row) ''Elemen''
     = JStr ''Jumlah Penduduk''"
  "extractField_csv (excel_row_to_record sheet_headers sheet_row) ''Tahun'' = JStr []"
  "extractField_csv (excel_row_to_record sheet_headers sheet_row) ''Nilai'' = JStr []"
  "extractField_csv (excel_row_to_record sheet_headers sheet_row) ''Satuan'' = JStr ''Orang''"
  "trim ''Jumlah Penduduk'' = ''Jumlah Penduduk''"
  "trim ''Orang'' = ''Orang''"
  by code_simp+

lemma sheet_transform:
  "transformRecord_csv sheet_config ''penduduk.xlsx'' (excel_row_to_record sheet_headers sheet_row)
   = Inr (Some \<lparr>kategori = ''kependudukan'', elemen = ''Jumlah Penduduk'', tahun = None,
           nilai = None, satuan = Some ''Orang'',
           raw_json = excel_row_to_record sheet_headers sheet_row, source_type = Csv,
           source_ref = ''penduduk.xlsx'',
           hash_key = calculateHash ''kependudukan|Jumlah Penduduk|null|null|Orang|penduduk.xlsx''\<rparr>)"
  by (simp add: transformRecord_csv_def Let_def sheet_config_def file_mapping_def sheet_fields
      tpl_num_def tpl_str_def)






section \<open>Properties of the fingerprint\<close>

lemma hex_digit_lower: "hex_digit n \<in> set ''0123456789abcdef''"
proof -
  have "n mod 16 < length ''0123456789abcdef''"
    by simp
  then show ?thesis
    unfolding hex_digit_def by (rule nth_mem)
qed

lemma lower_hex_bytes: "lower_hex (hex_of_bytes bs)"
  unfolding lower_hex_def hex_of_bytes_def
  by (induction bs) (simp_all add: hex_digit_lower del: set_simps)

lemma length_hex_of_bytes: "length (hex_of_bytes bs) = 2 * length bs"
  unfolding hex_of_bytes_def by (induction bs) simp_all

lemma length_sha_round: "length (sha_round s kw) = length s"
  by (induction s kw rule: sha_round.induct) (simp_all add: Let_def)

lemma length_sha_rounds: "length (foldl sha_round s kws) = length s"
  by (induction kws arbitrary: s) (simp_all add: length_sha_round)

lemma length_sha_compress: "length (sha_compress h block) = length h"
  by (simp add: sha_compress_def length_sha_rounds)

lemma length_sha_blocks: "length (foldl sha_compress h blocks) = length h"
  by (induction blocks arbitrary: h) (simp_all add: length_sha_compress)

lemma length_word_bytes: "length (concat (map word_bytes ws)) = 4 * length ws"
  by (induction ws) (simp_all add: word_bytes_def)

lemma length_sha256: "length (sha256 msg) = 32"
  by (simp add: sha256_def Let_def length_word_bytes length_sha_blocks sha_H0_def)

lemma length_calculateHash: "length (calculateHash input) = 64"
  by (simp add: calculateHash_def length_hex_of_bytes length_sha256)

lemma wide_step_fingerprint:
  "wide_step sourceConfig record yearRe el st key = Inr chunk \<Longrightarrow> r \<in> set chunk \<Longrightarrow>
     hash_key r = calculateHash (fingerprint_input r) \<and> source_ref r = resource_id sourceConfig
     \<and> kategori r = api_kategori sourceConfig"
  by (auto simp: wide_step_def mkHash_def fingerprint_input_def and_then_Inr_iff
      split: option.splits)

lemma api_fingerprint:
  assumes "transformRecord_api sourceConfig record = Inr out" and "r \<in> set out"
  shows "hash_key r = calculateHash (fingerprint_input r) \<and> source_ref r = resource_id sourceConfig
     \<and> kategori r = api_kategori sourceConfig"
proof (cases "field_set (tahun_field (api_mapping sourceConfig))
              \<and> field_set (nilai_field (api_mapping sourceConfig))")
  case True
  with assms show ?thesis
    by (auto simp: transformRecord_api_def Let_def mkHash_def fingerprint_input_def
        and_then_Inr_iff split: if_splits)
next
  case False
  with assms obtain yearRe el st chunks where
    chunks: "for_each (wide_step sourceConfig record yearRe el st) (object_keys record)
             = Inr chunks"
    and r: "r \<in> set (concat chunks)"
    by (auto simp: transformRecord_api_def Let_def and_then_Inr_iff
        split: if_splits option.splits)
  from r obtain chunk where "chunk \<in> set chunks" and member: "r \<in> set chunk"
    by auto
  with chunks obtain key where "wide_step sourceConfig record yearRe el st key = Inr chunk"
    using for_each_member by fastforce
  then show ?thesis
    using member by (rule wide_step_fingerprint)
qed

lemma csv_fingerprint:
  assumes "transformRecord_csv sourceConfig fileName record = Inr (Some r)"
  shows "hash_key r = calculateHash (fingerprint_input r) \<and> source_ref r = fileName
     \<and> kategori r = csv_kategori sourceConfig"
  using assms
  by (auto simp: transformRecord_csv_def Let_def fingerprint_input_def and_then_Inr_iff
      split: if_splits)

text \<open>
  C3. The fingerprint of every record that a loader emits is the SHA-256 digest, in
  lowercase hexadecimal (64 digits), of the pipe-joined string
  category|element|year|value|unit|source reference of that record, the source
  reference being the resource id for an API record and the file name for a file
  record. Two emitted records with equal identity fields have equal fingerprints.
\<close>

theorem fingerprint_of_identity_fields:
  assumes "emitted_by_api ac record r \<or> emitted_by_csv cc fileName record r"
  shows "hash_key r = hex_of_bytes (sha256 (utf8 (fingerprint_input r)))
    \<and> lower_hex (hash_key r) \<and> length (hash_key r) = 64
    \<and> (emitted_by_api ac record r \<longrightarrow> source_ref r = resource_id ac \<and> kategori r = api_kategori ac)
    \<and> (emitted_by_csv cc fileName record r \<longrightarrow> source_ref r = fileName \<and> kategori r = csv_kategori cc)
    \<and> ((emitted_by_api ac' record' r' \<or> emitted_by_csv cc' fileName' record' r') \<longrightarrow>
         kategori r' = kategori r \<and> elemen r' = elemen r \<and> tahun r' = tahun r
         \<and> nilai r' = nilai r \<and> satuan r' = satuan r \<and> source_ref r' = source_ref r \<longrightarrow>
         hash_key r' = hash_key r)"
proof -
  have hash: "hash_key x = calculateHash (fingerprint_input x)"
    if "emitted_by_api a rc x \<or> emitted_by_csv c f rc x" for a c f rc x
    using that api_fingerprint csv_fingerprint
    unfolding emitted_by_api_def emitted_by_csv_def by (auto split: sum.splits)
  have h: "hash_key r = calculateHash (fingerprint_input r)"
    using assms by (rule hash)
  have digest: "hash_key r = hex_of_bytes (sha256 (utf8 (fingerprint_input r)))"
    using h by (simp add: calculateHash_def)
  have hex: "lower_hex (hash_key r)"
    unfolding digest by (rule lower_hex_bytes)
  have len: "length (hash_key r) = 64"
    unfolding h by (rule length_calculateHash)
  have api: "emitted_by_api ac record r \<longrightarrow>
      source_ref r = resource_id ac \<and> kategori r = api_kategori ac"
    using api_fingerprint unfolding emitted_by_api_def by (auto split: sum.splits)
  have csv: "emitted_by_csv cc fileName record r \<longrightarrow>
      source_ref r = fileName \<and> kategori r = csv_kategori cc"
    using csv_fingerprint unfolding emitted_by_csv_def by blast
  have same: "hash_key r' = hash_key r"
    if e: "emitted_by_api ac' record' r' \<or> emitted_by_csv cc' fileName' record' r'"
      and eq: "kategori r' = kategori r \<and> elemen r' = elemen r \<and> tahun r' = tahun r
         \<and> nilai r' = nilai r \<and> satuan r' = satuan r \<and> source_ref r' = source_ref r"
  proof -
    have "hash_key r' = calculateHash (fingerprint_input r')"
      using e by (rule hash)
    moreover have "fingerprint_input r' = fingerprint_input r"
      using eq by (simp add: fingerprint_input_def)
    ultimately show ?thesis
      using h by simp
  qed
  from digest hex len api csv same show ?thesis
    by blast
qed

lemma long_twin_parts:
  "api_elemen \<lparr>api_kategori = k, resource_id = rid, api_mapping = long_mapping\<rparr>
     long_twin_record = Inr ''Jumlah Penduduk''"
  "parseIntSafely_api (extractField_api long_twin_record (Some ''Tahun''))
     = Inr (Some (Fin 2019))"
  "parseFloatSafely_api (extractField_api long_twin_record (Some ''Nilai''))
     = Inr (Some (Fin (6 / 5)))"
  "api_unit (extractField_api long_twin_record (Some ''Satuan'')) = Inr (Some ''Orang'')"
  by code_simp+

lemma long_twin_eval:
  "transformRecord_api \<lparr>api_kategori = k, resource_id = rid, api_mapping = long_mapping\<rparr>
     long_twin_record =
   Inr [\<lparr>kategori = k, elemen = ''Jumlah Penduduk'', tahun = Some (Fin 2019),
     nilai = Some (Fin (6 / 5)), satuan = Some ''Orang'', raw_json = long_twin_record,
     source_type = Api, source_ref = rid,
     hash_key = calculateHash (k @ ''|Jumlah Penduduk|2019|1.2|Orang|'' @ rid)\<rparr>]"
proof -
  have mode: "tahun_field long_mapping = Some ''Tahun''" "nilai_field long_mapping = Some ''Nilai''"
    "satuan_field long_mapping = Some ''Satuan''"
    by (simp_all add: long_mapping_def)
  show ?thesis
    by (simp add: transformRecord_api_def Let_def mode field_set_def long_twin_parts mkHash_def
        wide_example_strings tpl_str_def)
qed

theorem fingerprint_of_identity_fields_witness:
  "map_sum id (map hash_key) (transformRecord_api
       \<lparr>api_kategori = ''kependudukan'', resource_id = ''res-1'', api_mapping = wide_mapping\<rparr>
       wide_example_record)
     = Inr [hex_of_bytes (sha256 (utf8 ''kependudukan|Jumlah Penduduk|2019|1.2|Orang|res-1'')),
        hex_of_bytes (sha256 (utf8 ''kependudukan|Jumlah Penduduk|2020|1350|Orang|res-1''))]
   \<and> map_sum id (map hash_key) (transformRecord_api
       \<lparr>api_kategori = ''kependudukan'', resource_id = ''res-1'', api_mapping = long_mapping\<rparr>
       long_twin_record)
     = Inr [hex_of_bytes (sha256 (utf8 ''kependudukan|Jumlah Penduduk|2019|1.2|Orang|res-1''))]
   \<and> map_sum id (map_option hash_key) (transformRecord_csv sheet_config ''penduduk.xlsx''
       (excel_row_to_record sheet_headers sheet_row))
     = Inr (Some (hex_of_bytes (sha256
         (utf8 ''kependudukan|Jumlah Penduduk|null|null|Orang|penduduk.xlsx''))))"
proof -
  define wc where
    "wc = \<lparr>api_kategori = ''kependudukan'', resource_id = ''res-1'', api_mapping = wide_mapping\<rparr>"
  define lc where
    "lc = \<lparr>api_kategori = ''kependudukan'', resource_id = ''res-1'', api_mapping = long_mapping\<rparr>"
  define rc where "rc = excel_row_to_record sheet_headers sheet_row"
  have "\<exists>ra rb. transformRecord_api wc wide_example_record = Inr [ra, rb]
      \<and> fingerprint_input ra = ''kependudukan|Jumlah Penduduk|2019|1.2|Orang|res-1''
      \<and> fingerprint_input rb = ''kependudukan|Jumlah Penduduk|2020|1350|Orang|res-1''"
    by (simp add: wc_def wide_example_eval fingerprint_input_def wide_example_strings tpl_str_def)
  then obtain ra rb where wide_eq: "transformRecord_api wc wide_example_record = Inr [ra, rb]"
    and fa: "fingerprint_input ra = ''kependudukan|Jumlah Penduduk|2019|1.2|Orang|res-1''"
    and fb: "fingerprint_input rb = ''kependudukan|Jumlah Penduduk|2020|1350|Orang|res-1''"
    by blast
  have "\<exists>rl. transformRecord_api lc long_twin_record = Inr [rl]
      \<and> fingerprint_input rl = ''kependudukan|Jumlah Penduduk|2019|1.2|Orang|res-1''"
    by (simp add: lc_def long_twin_eval fingerprint_input_def wide_example_strings tpl_str_def)
  then obtain rl where long_eq: "transformRecord_api lc long_twin_record = Inr [rl]"
    and fl: "fingerprint_input rl = ''kependudukan|Jumlah Penduduk|2019|1.2|Orang|res-1''"
    by blast
  have "\<exists>rs. transformRecord_csv sheet_config ''penduduk.xlsx'' rc = Inr (Some rs)
      \<and> fingerprint_input rs = ''kependudukan|Jumlah Penduduk|null|null|Orang|penduduk.xlsx''"
    by (simp add: rc_def sheet_transform fingerprint_input_def tpl_num_def tpl_str_def)
  then obtain rs where file_eq:
    "transformRecord_csv sheet_config ''penduduk.xlsx'' rc = Inr (Some rs)"
    and fs: "fingerprint_input rs = ''kependudukan|Jumlah Penduduk|null|null|Orang|penduduk.xlsx''"
    by blast
  have ea: "emitted_by_api wc wide_example_record ra
        \<or> emitted_by_csv sheet_config f wide_example_record ra"
    and eb: "emitted_by_api wc wide_example_record rb
        \<or> emitted_by_csv sheet_config f wide_example_record rb"
    and el: "emitted_by_api lc long_twin_record rl
        \<or> emitted_by_csv sheet_config f long_twin_record rl"
    and es: "emitted_by_api wc rc rs \<or> emitted_by_csv sheet_config ''penduduk.xlsx'' rc rs"
    for f
    by (simp_all add: emitted_by_api_def emitted_by_csv_def wide_eq long_eq file_eq)
  have "hash_key ra = hex_of_bytes (sha256 (utf8 (fingerprint_input ra)))"
    using fingerprint_of_identity_fields [OF ea] by simp
  moreover have "hash_key rb = hex_of_bytes (sha256 (utf8 (fingerprint_input rb)))"
    using fingerprint_of_identity_fields [OF eb] by simp
  moreover have "hash_key rl = hex_of_bytes (sha256 (utf8 (fingerprint_input rl)))"
    using fingerprint_of_identity_fields [OF el] by simp
  moreover have "hash_key rs = hex_of_bytes (sha256 (utf8 (fingerprint_input rs)))"
    using fingerprint_of_identity_fields [OF es] by simp
  ultimately show ?thesis
    using wide_eq long_eq file_eq fa fb fl fs
    unfolding wc_def lc_def rc_def by simp
qed

section \<open>Records and sheets that cannot be converted\<close>

text \<open>
  The conversion to a string asks \<^verbatim>\<open>toString\<close> before \<^verbatim>\<open>valueOf\<close>: own data under
  \<^verbatim>\<open>toString\<close> makes it throw, own data under \<^verbatim>\<open>valueOf\<close> alone does not.
\<close>

lemma to_String_objects:
  "to_String (JObj [(''toString'', JNum (Fin 1))]) = Inl TypeError"
  "to_String (JObj [(''toString'', JNull), (''valueOf'', JStr ''x'')]) = Inl TypeError"
  "to_String (JObj [(''valueOf'', JNum (Fin 1))]) = Inr ''[object Object]''"
  "to_String (JObj [(''Tahun'', JNum (Fin 2020))]) = Inr ''[object Object]''"
  by simp_all

lemma unprintable_year_parts:
  "api_elemen \<lparr>api_kategori = k, resource_id = rid, api_mapping = long_mapping\<rparr>
     unprintable_year_record = Inr ''Jumlah Penduduk''"
  "parseIntSafely_api (extractField_api unprintable_year_record (Some ''Tahun''))
     = Inl TypeError"
  "extractField_csv unprintable_year_record ''Elemen'' = JStr ''Jumlah Penduduk''"
  "truthy (extractField_csv unprintable_year_record ''Tahun'')"
  "parseIntSafely_csv (extractField_csv unprintable_year_record ''Tahun'') = Inl TypeError"
  by code_simp+

text \<open>
  The transform of either loader throws on a record whose year cannot be converted
  to a string, and \<^verbatim>\<open>processRecords\<close> goes on with the next record.
\<close>

lemma unprintable_year_throws:
  "transformRecord_api \<lparr>api_kategori = k, resource_id = rid, api_mapping = long_mapping\<rparr>
     unprintable_year_record = Inl TypeError"
  "transformRecord_csv sheet_config fileName unprintable_year_record = Inl TypeError"
proof -
  have mode: "tahun_field long_mapping = Some ''Tahun''" "nilai_field long_mapping = Some ''Nilai''"
    by (simp_all add: long_mapping_def)
  show "transformRecord_api \<lparr>api_kategori = k, resource_id = rid, api_mapping = long_mapping\<rparr>
     unprintable_year_record = Inl TypeError"
    by (simp add: transformRecord_api_def Let_def mode field_set_def unprintable_year_parts)
  show "transformRecord_csv sheet_config fileName unprintable_year_record = Inl TypeError"
    by (simp add: transformRecord_csv_def Let_def sheet_config_def file_mapping_def
        unprintable_year_parts sheet_fields)
qed

lemma processRecords_skips_error:
  "processRecords_api \<lparr>api_kategori = k, resource_id = rid, api_mapping = long_mapping\<rparr>
     [unprintable_year_record, long_twin_record]
   = [\<lparr>kategori = k, elemen = ''Jumlah Penduduk'', tahun = Some (Fin 2019),
       nilai = Some (Fin (6 / 5)), satuan = Some ''Orang'', raw_json = long_twin_record,
       source_type = Api, source_ref = rid,
       hash_key = calculateHash (k @ ''|Jumlah Penduduk|2019|1.2|Orang|'' @ rid)\<rparr>]"
  "processRecords_csv sheet_config ''penduduk.xlsx''
     [unprintable_year_record, excel_row_to_record sheet_headers sheet_row]
   = [\<lparr>kategori = ''kependudukan'', elemen = ''Jumlah Penduduk'', tahun = None, nilai = None,
       satuan = Some ''Orang'', raw_json = excel_row_to_record sheet_headers sheet_row,
       source_type = Csv, source_ref = ''penduduk.xlsx'',
       hash_key = calculateHash ''kependudukan|Jumlah Penduduk|null|null|Orang|penduduk.xlsx''\<rparr>]"
  by (simp_all add: processRecords_api_def processRecords_csv_def List.map_filter_def
      unprintable_year_throws long_twin_eval sheet_transform)

text \<open>
  A sheet without rows, or with the header row only, gives no record; a header that
  cannot be converted to a property key makes the load of a sheet with data rows fail.
\<close>

lemma loadExcel_records_no_rows:
  "loadExcel_records [] = Inr []"
  "loadExcel_records [headers] = Inr []"
  "loadExcel_records unprintable_header_sheet
   = Inl (Error ''Failed to parse Excel file: Cannot convert object to primitive value'')"
  by (simp_all add: loadExcel_records_def)
    (simp add: unprintable_header_sheet_def property_keys_def unprintable_def message_def)

section \<open>Records without an element\<close>

lemma trim_empty: "trim [] = []"
  by (simp add: trim_def)

lemma blank_api_elemen:
  assumes "missing_or_blank e"
    and "extractField_api record (Some (elemen_field (api_mapping sourceConfig))) = e"
  shows "api_elemen sourceConfig record = Inr []"
  using assms by (cases e) (simp_all add: api_elemen_def nullish_def trim_empty)

text \<open>
  C5. When the element field of a source record resolves to a missing value or to a
  string that is empty after trimming, the API transform emits no record, whatever
  the mapping is (long mode, wide mode with any number of matching keys, or
  neither), and the row transform of the file loader skips the row; neither throws.
\<close>

theorem blank_element_yields_nothing:
  assumes "missing_or_blank e"
  shows "(extractField_api record (Some (elemen_field (api_mapping ac))) = e
            \<longrightarrow> transformRecord_api ac record = Inr [])
       \<and> (extractField_csv record (csv_elemen_field (csv_mapping cc)) = e
            \<longrightarrow> transformRecord_csv cc fileName record = Inr None)"
proof (intro conjI impI)
  assume "extractField_api record (Some (elemen_field (api_mapping ac))) = e"
  with assms have "api_elemen ac record = Inr []"
    by (rule blank_api_elemen)
  then show "transformRecord_api ac record = Inr []"
    by (simp add: transformRecord_api_def Let_def split: option.splits)
next
  assume "extractField_csv record (csv_elemen_field (csv_mapping cc)) = e"
  moreover have "\<not> truthy e \<or> (\<exists>s. to_String e = Inr s \<and> trim s = [])"
    using assms by (cases e) simp_all
  ultimately show "transformRecord_csv cc fileName record = Inr None"
    by (auto simp: transformRecord_csv_def Let_def)
qed

theorem blank_element_yields_nothing_witness:
  "transformRecord_api
     \<lparr>api_kategori = ''kependudukan'', resource_id = ''res-1'', api_mapping = long_mapping\<rparr>
     long_example_record = Inr []
   \<and> transformRecord_api
     \<lparr>api_kategori = ''kependudukan'', resource_id = ''res-1'', api_mapping = wide_mapping\<rparr>
     wide_blank_record = Inr []
   \<and> transformRecord_csv
     \<lparr>csv_kategori = ''kependudukan'', file_path = ''data/penduduk.csv'',
      csv_mapping = file_mapping\<rparr>
     ''penduduk.csv'' (JObj [(''Tahun'', JStr ''2021''), (''Nilai'', JStr ''5'')]) = Inr None"
proof -
  have fields: "elemen_field long_mapping = ''Elemen''" "elemen_field wide_mapping = ''Elemen''"
    "csv_elemen_field file_mapping = ''Elemen''"
    by (simp_all add: long_mapping_def wide_mapping_def file_mapping_def)
  have e1: "extractField_api long_example_record (Some ''Elemen'') = JStr []"
    by code_simp
  have e2: "extractField_api wide_blank_record (Some ''Elemen'') = JStr ''  ''"
    by code_simp
  have e3: "extractField_csv (JObj [(''Tahun'', JStr ''2021''), (''Nilai'', JStr ''5'')]) ''Elemen''
            = JNull"
    by code_simp
  have b: "missing_or_blank (JStr [])" "missing_or_blank (JStr ''  '')" "missing_or_blank JNull"
    by code_simp+
  from blank_element_yields_nothing [OF b(1), of long_example_record
      "\<lparr>api_kategori = ''kependudukan'', resource_id = ''res-1'', api_mapping = long_mapping\<rparr>"]
    blank_element_yields_nothing [OF b(2), of wide_blank_record
      "\<lparr>api_kategori = ''kependudukan'', resource_id = ''res-1'', api_mapping = wide_mapping\<rparr>"]
    blank_element_yields_nothing [OF b(3),
      of "JObj [(''Tahun'', JStr ''2021''), (''Nilai'', JStr ''5'')]" _
      "\<lparr>csv_kategori = ''kependudukan'', file_path = ''data/penduduk.csv'',
        csv_mapping = file_mapping\<rparr>" "''penduduk.csv''"]
    fields e1 e2 e3
  show ?thesis by simp
qed

section \<open>Properties of the year floor\<close>

lemma not_ge_below: "a \<noteq> NaN \<Longrightarrow> b \<noteq> NaN \<Longrightarrow> (\<not> js_ge a b) = strictly_below a b"
  by (cases a; cases b) auto

lemma since_keeps_dropped:
  assumes "num_truthy since"
  shows "since_keeps since r = (\<not> dropped_by_floor since r)"
proof (cases "tahun r")
  case None
  then show ?thesis
    by (simp add: since_keeps_def dropped_by_floor_def)
next
  case (Some t)
  have nan: "since \<noteq> NaN"
    using assms by (simp add: num_truthy_def)
  show ?thesis
  proof (cases "t = NaN")
    case True
    with Some show ?thesis
      by (simp add: since_keeps_def dropped_by_floor_def num_truthy_def)
  next
    case False
    with Some not_ge_below [OF False nan] show ?thesis
      by (auto simp: since_keeps_def dropped_by_floor_def num_truthy_def)
  qed
qed

text \<open>
  C9. When the year floor is applied (the option is a non-zero number), the kept
  records are, in their order, exactly those that are not dropped; a record is
  dropped only when its year is a number other than 0 that is strictly below the
  floor. So a record without year and a record with year 0 are kept. The two
  drivers filter alike.
\<close>

theorem since_filter_keeps_missing_and_zero:
  assumes "num_truthy since"
  shows "since_filter_api (Some since) records = filter (\<lambda>r. \<not> dropped_by_floor since r) records
    \<and> since_filter_csv (Some since) records = since_filter_api (Some since) records
    \<and> (r \<in> set records \<longrightarrow> tahun r = None \<or> tahun r = Some (Fin 0) \<longrightarrow>
         r \<in> set (since_filter_api (Some since) records)
         \<and> r \<in> set (since_filter_csv (Some since) records))
    \<and> (r \<in> set records \<longrightarrow> r \<notin> set (since_filter_api (Some since) records) \<longrightarrow>
         (\<exists>t. tahun r = Some t \<and> t \<noteq> Fin 0 \<and> strictly_below t since))"
proof -
  have api: "since_filter_api (Some since) records
             = filter (\<lambda>r. \<not> dropped_by_floor since r) records"
  proof -
    have "since_keeps since = (\<lambda>r. \<not> dropped_by_floor since r)"
      by (rule ext) (rule since_keeps_dropped [OF assms])
    with assms show ?thesis
      by (simp add: since_filter_api_def)
  qed
  have csv: "since_filter_csv (Some since) records = since_filter_api (Some since) records"
    by (simp add: since_filter_csv_def since_filter_api_def)
  have kept: "r \<in> set (since_filter_api (Some since) records)"
    if "r \<in> set records" and "tahun r = None \<or> tahun r = Some (Fin 0)"
    using that unfolding api by (auto simp: dropped_by_floor_def)
  have dropped: "\<exists>t. tahun r = Some t \<and> t \<noteq> Fin 0 \<and> strictly_below t since"
    if "r \<in> set records" and "r \<notin> set (since_filter_api (Some since) records)"
    using that unfolding api by (auto simp: dropped_by_floor_def split: option.splits)
  from api csv kept dropped show ?thesis
    by (metis (no_types, lifting))
qed

theorem since_filter_keeps_missing_and_zero_witness:
  "map tahun (since_filter_api (Some (Fin 2020))
     [year_record Api None, year_record Api (Some (Fin 0)), year_record Api (Some (Fin 2019)),
      year_record Api (Some (Fin 2021))])
   = [None, Some (Fin 0), Some (Fin 2021)]
   \<and> map tahun (since_filter_csv (Some (Fin 2020))
     [year_record Csv None, year_record Csv (Some (Fin 0)), year_record Csv (Some (Fin 2019)),
      year_record Csv (Some (Fin 2021))])
   = [None, Some (Fin 0), Some (Fin 2021)]"
proof -
  have t: "num_truthy (Fin 2020)"
    by (simp add: num_truthy_def)
  have y: "tahun (year_record kind x) = x" for kind x
    by (simp add: year_record_def)
  from since_filter_keeps_missing_and_zero [OF t,
      of "[year_record Api None, year_record Api (Some (Fin 0)),
           year_record Api (Some (Fin 2019)), year_record Api (Some (Fin 2021))]"]
    since_filter_keeps_missing_and_zero [OF t,
      of "[year_record Csv None, year_record Csv (Some (Fin 0)),
           year_record Csv (Some (Fin 2019)), year_record Csv (Some (Fin 2021))]"]
  show ?thesis
    by (simp add: dropped_by_floor_def y)
qed

section \<open>Properties of the checkpoint lookup\<close>

text \<open>
  C7 (as amended). With a connection established, \<^verbatim>\<open>getCheckpoint\<close> never
  propagates an error: it returns 0 when the query fails and when no row is stored
  for the source, and the stored \<^verbatim>\<open>last_offset\<close> of the row of the source otherwise
  (the pair of source kind and source reference is a unique key).
\<close>

theorem getCheckpoint_connected:
  assumes "connection db"
  shows "(\<exists>offset. getCheckpoint fails db sourceType sourceRef = Inr offset)
    \<and> (fails \<longrightarrow> getCheckpoint fails db sourceType sourceRef = Inr (Some 0))
    \<and> (\<not> fails \<longrightarrow>
         (\<forall>c \<in> set (etl_checkpoints db).
            \<not> (cp_source_type c = sourceType \<and> cp_source_ref c = sourceRef)) \<longrightarrow>
         getCheckpoint fails db sourceType sourceRef = Inr (Some 0))
    \<and> (\<not> fails \<longrightarrow>
         distinct (map (\<lambda>c. (cp_source_type c, cp_source_ref c)) (etl_checkpoints db)) \<longrightarrow>
         row \<in> set (etl_checkpoints db) \<longrightarrow>
         cp_source_type row = sourceType \<and> cp_source_ref row = sourceRef \<longrightarrow>
         getCheckpoint fails db sourceType sourceRef = Inr (last_offset row))"
proof (intro conjI impI)
  show "\<exists>offset. getCheckpoint fails db sourceType sourceRef = Inr offset"
    using assms by (simp add: getCheckpoint_def split: list.splits)
  show "getCheckpoint fails db sourceType sourceRef = Inr (Some 0)" if fails
    using assms that by (simp add: getCheckpoint_def)
next
  assume "\<not> fails"
    and none: "\<forall>c \<in> set (etl_checkpoints db).
      \<not> (cp_source_type c = sourceType \<and> cp_source_ref c = sourceRef)"
  from none have
    "filter (\<lambda>c. cp_source_type c = sourceType \<and> cp_source_ref c = sourceRef)
       (etl_checkpoints db) = []"
    by (simp add: filter_empty_conv)
  with assms \<open>\<not> fails\<close> show "getCheckpoint fails db sourceType sourceRef = Inr (Some 0)"
    by (simp add: getCheckpoint_def)
next
  assume "\<not> fails"
    and uniq: "distinct (map (\<lambda>c. (cp_source_type c, cp_source_ref c)) (etl_checkpoints db))"
    and mem: "row \<in> set (etl_checkpoints db)"
    and key: "cp_source_type row = sourceType \<and> cp_source_ref row = sourceRef"
  define found where
    "found = filter (\<lambda>c. cp_source_type c = sourceType \<and> cp_source_ref c = sourceRef)
               (etl_checkpoints db)"
  have "row \<in> set found"
    using mem key by (simp add: found_def)
  then obtain c rest where shape: "found = c # rest"
    by (cases found) auto
  then have "c \<in> set found"
    by simp
  then have c: "c \<in> set (etl_checkpoints db)"
    "(cp_source_type c, cp_source_ref c) = (cp_source_type row, cp_source_ref row)"
    using key by (simp_all add: found_def)
  have "inj_on (\<lambda>c. (cp_source_type c, cp_source_ref c)) (set (etl_checkpoints db))"
    using uniq by (simp add: distinct_map)
  with c mem have "c = row"
    by (rule_tac inj_onD)
  with assms \<open>\<not> fails\<close> shape show "getCheckpoint fails db sourceType sourceRef = Inr (last_offset row)"
    by (simp add: getCheckpoint_def found_def [symmetric])
qed

theorem getCheckpoint_connected_witness:
  "getCheckpoint False (closed_store\<lparr>connection := True\<rparr>) Api ''res-1'' = Inr (Some 300)
   \<and> getCheckpoint True (closed_store\<lparr>connection := True\<rparr>) Api ''res-1'' = Inr (Some 0)
   \<and> getCheckpoint False (closed_store\<lparr>connection := True\<rparr>) Csv ''penduduk.csv'' = Inr (Some 0)"
proof -
  define db where "db = closed_store\<lparr>connection := True\<rparr>"
  define row where
    "row = \<lparr>cp_source_type = Api, cp_source_ref = ''res-1'', last_offset = Some 300,
            last_processed_at = 1700000000\<rparr>"
  have c: "connection db"
    by (simp add: db_def)
  have rows: "etl_checkpoints db = [row]"
    by (simp add: db_def closed_store_def row_def)
  have none: "\<forall>c \<in> set (etl_checkpoints db).
      \<not> (cp_source_type c = Csv \<and> cp_source_ref c = ''penduduk.csv'')"
    by (simp add: rows row_def)
  have uniq: "distinct (map (\<lambda>c. (cp_source_type c, cp_source_ref c)) (etl_checkpoints db))"
    by (simp add: rows)
  have key: "row \<in> set (etl_checkpoints db)"
    "cp_source_type row = Api \<and> cp_source_ref row = ''res-1''" "last_offset row = Some 300"
    by (simp_all add: rows) (simp_all add: row_def)
  from getCheckpoint_connected [OF c, of False Api "''res-1''" row]
    getCheckpoint_connected [OF c, of True Api "''res-1''"]
    getCheckpoint_connected [OF c, of False Csv "''penduduk.csv''"]
    none uniq key
  show ?thesis
    unfolding db_def by simp
qed

text \<open>
  C7 as stated fails: without a connection \<^verbatim>\<open>getCheckpoint\<close> throws
  (\<^verbatim>\<open>Database connection not established\<close>), also when the row is stored.
\<close>

theorem getCheckpoint_connected_counterexample:
  "getCheckpoint False closed_store Api ''res-1'' = Inl ConnectionNotEstablished"
  by (simp add: getCheckpoint_def closed_store_def)

section \<open>Properties of the upsert\<close>

lemma length_update_first: "length (update_first P f xs) = length xs"
  by (induction xs) simp_all

lemma nth_update_first:
  "i < length xs \<Longrightarrow> update_first P f xs ! i = xs ! i \<or> update_first P f xs ! i = f (xs ! i)"
proof (induction xs arbitrary: i)
  case Nil
  then show ?case by simp
next
  case (Cons x xs)
  then show ?case
    by (cases i) auto
qed

lemma map_update_first: "(\<And>x. g (f x) = g x) \<Longrightarrow> map g (update_first P f xs) = map g xs"
  by (induction xs) simp_all

lemma update_first_unique:
  "distinct (map g xs) \<Longrightarrow>
     update_first (\<lambda>x. g x = k) f xs = map (\<lambda>x. if g x = k then f x else x) xs"
proof (induction xs)
  case Nil
  then show ?case by simp
next
  case (Cons x xs)
  show ?case
  proof (cases "g x = k")
    case True
    from Cons.prems have "g x \<notin> g ` set xs"
      by simp
    with True have "\<forall>y \<in> set xs. g y \<noteq> k"
      by (metis image_eqI)
    then have "map (\<lambda>x. if g x = k then f x else x) xs = xs"
      by (simp add: map_idI)
    with True show ?thesis by simp
  next
    case False
    with Cons show ?thesis by simp
  qed
qed

lemma find_append_absent: "\<forall>x \<in> set xs. \<not> P x \<Longrightarrow> P y \<Longrightarrow> find P (xs @ [y]) = Some y"
  by (induction xs) auto

lemma update_first_append_absent:
  "\<forall>x \<in> set xs. \<not> P x \<Longrightarrow> P y \<Longrightarrow> update_first P f (xs @ [y]) = xs @ [f y]"
  by (induction xs) auto

lemma same_identity_refl: "same_identity row row"
  by (simp add: same_identity_def)

lemma same_identity_trans: "same_identity a b \<Longrightarrow> same_identity b c \<Longrightarrow> same_identity a c"
  by (simp add: same_identity_def)

lemma same_identity_update: "same_identity row (on_duplicate_update r now row)"
  by (simp add: same_identity_def on_duplicate_update_def)

lemma hash_key_update: "hash_key (on_duplicate_update r now row) = hash_key row"
  by (simp add: on_duplicate_update_def)

lemma hash_key_insert: "hash_key (insert_values r nid now) = hash_key r"
  by (simp add: insert_values_def)

lemma update_at_insert_time:
  "on_duplicate_update r now (insert_values r nid now) = insert_values r nid now"
  by (simp add: on_duplicate_update_def insert_values_def)

text \<open>One tuple of values: the rows in place keep their identity, the unique key holds.\<close>

lemma upsert_row_frame:
  assumes "upsert_row found now (rows, nid, aff) r = (rows', nid', aff')"
  shows "length rows \<le> length rows'"
    and "\<forall>i < length rows. same_identity (rows ! i) (rows' ! i)"
    and "set (map hash_key rows') = insert (hash_key r) (set (map hash_key rows))"
    and "distinct (map hash_key rows) \<longrightarrow> distinct (map hash_key rows')"
proof -
  show "length rows \<le> length rows'"
    using assms
    by (auto simp: upsert_row_def length_update_first split: option.splits)
  show "\<forall>i < length rows. same_identity (rows ! i) (rows' ! i)"
  proof (intro allI impI)
    fix i
    assume i: "i < length rows"
    show "same_identity (rows ! i) (rows' ! i)"
    proof (cases "find (\<lambda>row. hash_key row = hash_key r) rows")
      case None
      with assms i show ?thesis
        by (auto simp: upsert_row_def nth_append same_identity_refl)
    next
      case (Some old)
      with assms have
        "rows' = update_first (\<lambda>row. hash_key row = hash_key r) (on_duplicate_update r now) rows"
        by (auto simp: upsert_row_def)
      with nth_update_first [OF i, of "\<lambda>row. hash_key row = hash_key r" "on_duplicate_update r now"]
      show ?thesis
        by (auto simp: same_identity_refl same_identity_update)
    qed
  qed
  show keys: "set (map hash_key rows') = insert (hash_key r) (set (map hash_key rows))"
  proof (cases "find (\<lambda>row. hash_key row = hash_key r) rows")
    case None
    with assms show ?thesis
      by (auto simp: upsert_row_def insert_values_def)
  next
    case (Some old)
    then have "hash_key r \<in> set (map hash_key rows)"
      by (auto simp: find_Some_iff) (metis nth_mem image_eqI)
    moreover from Some assms have "map hash_key rows' = map hash_key rows"
      by (auto simp: upsert_row_def map_update_first hash_key_update)
    ultimately show ?thesis
      by auto
  qed
  show "distinct (map hash_key rows) \<longrightarrow> distinct (map hash_key rows')"
  proof (cases "find (\<lambda>row. hash_key row = hash_key r) rows")
    case None
    then have "hash_key r \<notin> set (map hash_key rows)"
      by (auto simp: find_None_iff)
    with None assms show ?thesis
      by (auto simp: upsert_row_def insert_values_def)
  next
    case (Some old)
    with assms have "map hash_key rows' = map hash_key rows"
      by (auto simp: upsert_row_def map_update_first hash_key_update)
    then show ?thesis by simp
  qed
qed

text \<open>The whole statement: the same for any number of tuples.\<close>

lemma upsert_rows_frame:
  assumes "foldl (upsert_row found now) (rows, nid, aff) records = (rows', nid', aff')"
  shows "length rows \<le> length rows'
    \<and> (\<forall>i < length rows. same_identity (rows ! i) (rows' ! i))
    \<and> set (map hash_key rows') = set (map hash_key rows) \<union> set (map hash_key records)
    \<and> (distinct (map hash_key rows) \<longrightarrow> distinct (map hash_key rows'))"
  using assms
proof (induction records arbitrary: rows nid aff)
  case Nil
  then show ?case
    by (simp add: same_identity_refl)
next
  case (Cons r records)
  obtain rows1 nid1 aff1 where step: "upsert_row found now (rows, nid, aff) r = (rows1, nid1, aff1)"
    by (metis prod_cases3)
  with Cons.prems have rest:
    "foldl (upsert_row found now) (rows1, nid1, aff1) records = (rows', nid', aff')"
    by simp
  note s = upsert_row_frame [OF step]
  note t = Cons.IH [OF rest]
  have "length rows \<le> length rows'"
    using s(1) t by simp
  moreover have "\<forall>i < length rows. same_identity (rows ! i) (rows' ! i)"
  proof (intro allI impI)
    fix i
    assume i: "i < length rows"
    with s(1) have "i < length rows1" by simp
    with s(2) t i show "same_identity (rows ! i) (rows' ! i)"
      using same_identity_trans by blast
  qed
  moreover have "set (map hash_key rows') = set (map hash_key rows) \<union> set (map hash_key (r # records))"
    using s(3) t by auto
  moreover have "distinct (map hash_key rows) \<longrightarrow> distinct (map hash_key rows')"
    using s(4) t by simp
  ultimately show ?case
    by blast
qed

lemma upsertRecords_runs:
  assumes "connection db" and "records \<noteq> []"
  obtains rows nid aff res where
    "foldl (upsert_row (client_found_rows db) now) (facts_long db, next_id db, 0) records
       = (rows, nid, aff)"
    "upsertRecords False now db records = Inr (db\<lparr>facts_long := rows, next_id := nid\<rparr>, res)"
proof -
  obtain rows nid aff where
    f: "foldl (upsert_row (client_found_rows db) now) (facts_long db, next_id db, 0) records
       = (rows, nid, aff)"
    by (metis prod_cases3)
  with assms have "\<exists>res. upsertRecords False now db records
      = Inr (db\<lparr>facts_long := rows, next_id := nid\<rparr>, res)"
    by (simp add: upsertRecords_def Let_def)
  with f that show ?thesis
    by blast
qed

text \<open>A single record whose fingerprint is stored: the effect on the table.\<close>

lemma upsert_existing_row:
  assumes "connection db" and "distinct (map hash_key (facts_long db))"
    and "hash_key r \<in> set (map hash_key (facts_long db))"
  shows "\<exists>res. upsertRecords False now db [r] =
     Inr (db\<lparr>facts_long := map (\<lambda>row. if hash_key row = hash_key r
                                        then on_duplicate_update r now row else row)
                               (facts_long db)\<rparr>, res)"
proof -
  from assms(3) have "\<exists>row \<in> set (facts_long db). hash_key row = hash_key r"
    by auto
  then have "find (\<lambda>row. hash_key row = hash_key r) (facts_long db) \<noteq> None"
    by (auto simp: find_None_iff)
  then obtain old where "find (\<lambda>row. hash_key row = hash_key r) (facts_long db) = Some old"
    by auto
  with assms(1) update_first_unique [OF assms(2), of "hash_key r" "on_duplicate_update r now"]
  show ?thesis
    by (simp add: upsertRecords_def upsert_row_def Let_def)
qed

text \<open>The same record twice, into a table that does not have its fingerprint.\<close>

lemma upsert_twice_result:
  assumes "connection db" and "hash_key r \<notin> set (map hash_key (facts_long db))"
  shows "upsert_twice t1 t2 db r =
     Inr (db\<lparr>facts_long := facts_long db
                @ [on_duplicate_update r t2 (insert_values r (next_id db) t1)],
             next_id := Suc (next_id db)\<rparr>,
          \<lparr>inserted = 1, updated = 0, skipped = 0, errors = 0\<rparr>,
          if t1 \<noteq> t2 then \<lparr>inserted = 0, updated = 1, skipped = 0, errors = 0\<rparr>
          else \<lparr>inserted = 1, updated = 0, skipped = 0, errors = 0\<rparr>)"
proof -
  define new where "new = insert_values r (next_id db) t1"
  define db1 where "db1 = db\<lparr>facts_long := facts_long db @ [new], next_id := Suc (next_id db)\<rparr>"
  have no_row: "\<forall>row \<in> set (facts_long db). hash_key row \<noteq> hash_key r"
    using assms(2) by (metis image_eqI set_map)
  then have absent: "find (\<lambda>row. hash_key row = hash_key r) (facts_long db) = None"
    by (auto simp: find_None_iff)
  have first: "upsertRecords False t1 db [r]
      = Inr (db1, \<lparr>inserted = 1, updated = 0, skipped = 0, errors = 0\<rparr>)"
    using assms(1) absent
    by (simp add: upsertRecords_def upsert_row_def Let_def db1_def new_def)
  have key: "hash_key new = hash_key r"
    by (simp add: new_def insert_values_def)
  from no_row key have present:
    "find (\<lambda>row. hash_key row = hash_key r) (facts_long db @ [new]) = Some new"
    by (rule find_append_absent)
  have rows: "update_first (\<lambda>row. hash_key row = hash_key r) (on_duplicate_update r t2)
                (facts_long db @ [new]) = facts_long db @ [on_duplicate_update r t2 new]"
    using no_row key by (rule update_first_append_absent)
  have changed: "(on_duplicate_update r t2 new \<noteq> new) = (t1 \<noteq> t2)"
    by (auto simp: on_duplicate_update_def new_def insert_values_def)
  have second: "upsertRecords False t2 db1 [r]
      = Inr (db1\<lparr>facts_long := facts_long db @ [on_duplicate_update r t2 new]\<rparr>,
             if t1 \<noteq> t2 then \<lparr>inserted = 0, updated = 1, skipped = 0, errors = 0\<rparr>
             else \<lparr>inserted = 1, updated = 0, skipped = 0, errors = 0\<rparr>)"
    using assms(1) present rows changed
    by (simp add: upsertRecords_def upsert_row_def Let_def db1_def)
  show ?thesis
    using first second
    by (simp add: upsert_twice_def db1_def new_def)
qed

text \<open>
  C4 (as amended). A successful upsert of a batch keeps the unique key: no
  fingerprint gets a second row, and when every fingerprint of the batch is stored
  the table keeps its length. Every stored row stays in its place with its identity
  columns (\<^verbatim>\<open>id\<close>, \<^verbatim>\<open>kategori\<close>, \<^verbatim>\<open>elemen\<close>, \<^verbatim>\<open>tahun\<close>, \<^verbatim>\<open>hash_key\<close>,
  \<^verbatim>\<open>ingested_at\<close>); a record whose fingerprint is stored sets \<^verbatim>\<open>nilai\<close>,
  \<^verbatim>\<open>satuan\<close>, \<^verbatim>\<open>raw_json\<close>, \<^verbatim>\<open>source_type\<close>, \<^verbatim>\<open>source_ref\<close> and \<^verbatim>\<open>updated_at\<close> of
  its row and nothing else. Upserting one record twice stores exactly one row for
  it; the first write is counted as an insert, and the second as an update when it
  runs at another server time than the first, which changes \<^verbatim>\<open>updated_at\<close>. A second
  write at the same time sets the row to its current values and is counted as an
  insert.
\<close>

theorem upsert_existing_fingerprint:
  assumes "connection db" and "distinct (map hash_key (facts_long db))" and "records \<noteq> []"
  shows "(\<exists>db' res. upsertRecords False now db records = Inr (db', res)
            \<and> distinct (map hash_key (facts_long db'))
            \<and> length (facts_long db) \<le> length (facts_long db')
            \<and> (\<forall>i < length (facts_long db).
                  same_identity (facts_long db ! i) (facts_long db' ! i))
            \<and> (set (map hash_key records) \<subseteq> set (map hash_key (facts_long db)) \<longrightarrow>
                  length (facts_long db') = length (facts_long db)))
    \<and> (hash_key r \<in> set (map hash_key (facts_long db)) \<longrightarrow>
         (\<exists>res. upsertRecords False now db [r] =
            Inr (db\<lparr>facts_long := map (\<lambda>row. if hash_key row = hash_key r
                                               then on_duplicate_update r now row else row)
                                      (facts_long db)\<rparr>, res)))
    \<and> (hash_key r \<notin> set (map hash_key (facts_long db)) \<longrightarrow>
         (\<exists>db2. upsert_twice t1 t2 db r =
            Inr (db2, \<lparr>inserted = 1, updated = 0, skipped = 0, errors = 0\<rparr>,
                 if t1 \<noteq> t2 then \<lparr>inserted = 0, updated = 1, skipped = 0, errors = 0\<rparr>
                 else \<lparr>inserted = 1, updated = 0, skipped = 0, errors = 0\<rparr>)
            \<and> length (filter (\<lambda>row. hash_key row = hash_key r) (facts_long db2)) = 1
            \<and> length (facts_long db2) = Suc (length (facts_long db))))"
proof (intro conjI impI)
  from assms(1,3) obtain rows nid aff res where
    run: "foldl (upsert_row (client_found_rows db) now) (facts_long db, next_id db, 0) records
       = (rows, nid, aff)"
    and result: "upsertRecords False now db records
       = Inr (db\<lparr>facts_long := rows, next_id := nid\<rparr>, res)"
    by (rule upsertRecords_runs)
  note frame = upsert_rows_frame [OF run]
  have uniq: "distinct (map hash_key rows)"
    using frame assms(2) by simp
  have same_length: "length rows = length (facts_long db)"
    if "set (map hash_key records) \<subseteq> set (map hash_key (facts_long db))"
  proof -
    have "set (map hash_key rows) = set (map hash_key (facts_long db))"
      using frame that by auto
    with distinct_card [OF uniq] distinct_card [OF assms(2)] show ?thesis
      by simp
  qed
  show "\<exists>db' res. upsertRecords False now db records = Inr (db', res)
      \<and> distinct (map hash_key (facts_long db'))
      \<and> length (facts_long db) \<le> length (facts_long db')
      \<and> (\<forall>i < length (facts_long db). same_identity (facts_long db ! i) (facts_long db' ! i))
      \<and> (set (map hash_key records) \<subseteq> set (map hash_key (facts_long db)) \<longrightarrow>
            length (facts_long db') = length (facts_long db))"
    using result uniq frame same_length
    by (intro exI [of _ "db\<lparr>facts_long := rows, next_id := nid\<rparr>"] exI [of _ res]) simp
next
  assume "hash_key r \<in> set (map hash_key (facts_long db))"
  with assms(1,2) show "\<exists>res. upsertRecords False now db [r] =
      Inr (db\<lparr>facts_long := map (\<lambda>row. if hash_key row = hash_key r
                                         then on_duplicate_update r now row else row)
                                (facts_long db)\<rparr>, res)"
    by (rule upsert_existing_row)
next
  assume absent: "hash_key r \<notin> set (map hash_key (facts_long db))"
  then have "\<forall>row \<in> set (facts_long db). hash_key row \<noteq> hash_key r"
    by (metis image_eqI set_map)
  then have none: "filter (\<lambda>row. hash_key row = hash_key r) (facts_long db) = []"
    by (simp add: filter_empty_conv)
  show "\<exists>db2. upsert_twice t1 t2 db r =
      Inr (db2, \<lparr>inserted = 1, updated = 0, skipped = 0, errors = 0\<rparr>,
           if t1 \<noteq> t2 then \<lparr>inserted = 0, updated = 1, skipped = 0, errors = 0\<rparr>
           else \<lparr>inserted = 1, updated = 0, skipped = 0, errors = 0\<rparr>)
      \<and> length (filter (\<lambda>row. hash_key row = hash_key r) (facts_long db2)) = 1
      \<and> length (facts_long db2) = Suc (length (facts_long db))"
    using upsert_twice_result [OF assms(1) absent, of t1 t2] none
    by (simp add: hash_key_update insert_values_def)
qed

theorem upsert_existing_fingerprint_witness:
  "map_sum id snd (upsert_twice 100 160 empty_store (year_record Api None))
     = Inr (\<lparr>inserted = 1, updated = 0, skipped = 0, errors = 0\<rparr>,
            \<lparr>inserted = 0, updated = 1, skipped = 0, errors = 0\<rparr>)
   \<and> map_sum id (\<lambda>x. facts_long (fst x)) (upsertRecords False 160 stored_once [twin_record])
     = Inr [on_duplicate_update twin_record 160 (insert_values (year_record Api None) 1 100)]"
proof -
  have e: "connection empty_store" "distinct (map hash_key (facts_long empty_store))"
    "hash_key (year_record Api None) \<notin> set (map hash_key (facts_long empty_store))"
    by (simp_all add: empty_store_def)
  have s: "connection stored_once" "distinct (map hash_key (facts_long stored_once))"
    "hash_key twin_record \<in> set (map hash_key (facts_long stored_once))"
    "facts_long stored_once = [insert_values (year_record Api None) 1 100]"
    by (simp_all add: stored_once_def empty_store_def twin_record_def insert_values_def)
  have k: "hash_key (insert_values (year_record Api None) nid t) = hash_key twin_record" for nid t
    by (simp add: twin_record_def insert_values_def)
  have n: "[year_record Api None] \<noteq> []" "[twin_record] \<noteq> []"
    by simp_all
  have "\<exists>db2. upsert_twice 100 160 empty_store (year_record Api None) =
           Inr (db2, \<lparr>inserted = 1, updated = 0, skipped = 0, errors = 0\<rparr>,
                \<lparr>inserted = 0, updated = 1, skipped = 0, errors = 0\<rparr>)"
    using upsert_existing_fingerprint [OF e(1,2) n(1), where r = "year_record Api None"
        and ?t1.0 = 100 and ?t2.0 = 160, THEN conjunct2, THEN conjunct2] e(3)
    by auto
  then have twice: "map_sum id snd (upsert_twice 100 160 empty_store (year_record Api None))
     = Inr (\<lparr>inserted = 1, updated = 0, skipped = 0, errors = 0\<rparr>,
            \<lparr>inserted = 0, updated = 1, skipped = 0, errors = 0\<rparr>)"
    by auto
  have "\<exists>res. upsertRecords False 160 stored_once [twin_record] =
           Inr (stored_once\<lparr>facts_long :=
                  map (\<lambda>row. if hash_key row = hash_key twin_record
                             then on_duplicate_update twin_record 160 row else row)
                      (facts_long stored_once)\<rparr>, res)"
    using upsert_existing_fingerprint [OF s(1,2) n(2), where r = twin_record and now = 160,
        THEN conjunct2, THEN conjunct1] s(3)
    by simp
  then have existing:
    "map_sum id (\<lambda>x. facts_long (fst x)) (upsertRecords False 160 stored_once [twin_record])
     = Inr [on_duplicate_update twin_record 160 (insert_values (year_record Api None) 1 100)]"
    by (auto simp: s(4) k)
  from twice existing show ?thesis
    by simp
qed

text \<open>
  C4 as stated fails: a second write of the same record at the server time of the
  first changes nothing in the row and is counted as an insert, not as an update;
  and when one batch holds the record twice, one row is stored and two inserts are
  counted.
\<close>

theorem upsert_existing_fingerprint_counterexample:
  "map_sum id snd (upsert_twice 100 100 empty_store (year_record Api None))
     = Inr (\<lparr>inserted = 1, updated = 0, skipped = 0, errors = 0\<rparr>,
            \<lparr>inserted = 1, updated = 0, skipped = 0, errors = 0\<rparr>)
   \<and> map_sum id (\<lambda>x. (length (facts_long (fst x)), snd x))
        (upsertRecords False 100 empty_store [year_record Api None, year_record Api None])
     = Inr (1, \<lparr>inserted = 2, updated = 0, skipped = 0, errors = 0\<rparr>)"
proof -
  have e: "connection empty_store"
    "hash_key (year_record Api None) \<notin> set (map hash_key (facts_long empty_store))"
    by (simp_all add: empty_store_def)
  have twice: "map_sum id snd (upsert_twice 100 100 empty_store (year_record Api None))
     = Inr (\<lparr>inserted = 1, updated = 0, skipped = 0, errors = 0\<rparr>,
            \<lparr>inserted = 1, updated = 0, skipped = 0, errors = 0\<rparr>)"
    by (simp add: upsert_twice_result [OF e])
  have batch: "map_sum id (\<lambda>x. (length (facts_long (fst x)), snd x))
        (upsertRecords False 100 empty_store [year_record Api None, year_record Api None])
     = Inr (1, \<lparr>inserted = 2, updated = 0, skipped = 0, errors = 0\<rparr>)"
    by (simp add: upsertRecords_def upsert_row_def empty_store_def Let_def
        update_at_insert_time hash_key_insert)
  from twice batch show ?thesis
    by simp
qed

section \<open>Properties of the batch upsert\<close>

lemma add_result_assoc: "add_result (add_result a b) c = add_result a (add_result b c)"
  by (simp add: add_result_def)

lemma add_no_result: "add_result no_result a = a" "add_result a no_result = a"
  by (simp_all add: add_result_def no_result_def)

lemma foldl_add_result: "foldl add_result a rs = add_result a (sum_results rs)"
proof (induction rs arbitrary: a)
  case Nil
  then show ?case
    by (simp add: sum_results_def add_no_result)
next
  case (Cons r rs)
  have "foldl add_result a (r # rs) = add_result (add_result a r) (sum_results rs)"
    by (simp add: Cons.IH)
  also have "\<dots> = add_result a (add_result r (sum_results rs))"
    by (rule add_result_assoc)
  also have "add_result r (sum_results rs) = sum_results (r # rs)"
    using Cons.IH [of r] by (simp add: sum_results_def add_no_result)
  finally show ?case .
qed

lemma sum_results_Cons: "sum_results (r # rs) = add_result r (sum_results rs)"
  using foldl_add_result [of r rs] by (simp add: sum_results_def add_no_result)

text \<open>The slice that the loop takes at index \<open>i\<close> is the next chunk.\<close>

lemma slice_is_chunk:
  assumes "0 \<le> i" and "0 < b"
  shows "js_slice xs i (i + b) = take (nat b) (drop (nat i) xs)"
proof -
  have "nat (min (i + b) (int (length xs)) - min i (int (length xs)))
        = min (nat b) (length xs - nat i)"
    using assms by (auto simp: min_def)
  moreover have "nat (min i (int (length xs))) = min (nat i) (length xs)"
    using assms by (auto simp: min_def)
  ultimately show ?thesis
    using assms by (simp add: js_slice_def Let_def min_def)
qed

lemma body_is_attempt:
  assumes "0 \<le> i" and "0 < b"
  shows "batch_body w records b i (db, tally) =
     (case attempt_chunk w i db (take (nat b) (drop (nat i) records)) of
        (db', res) \<Rightarrow> (db', add_result tally res))"
  by (simp add: batch_body_def attempt_chunk_def slice_is_chunk [OF assms] add_result_def
      no_result_def split: sum.splits)

lemma chunks_step:
  assumes "0 \<le> i" and "0 < b" and "i < int (length xs)"
  shows "chunks_of (nat b) (drop (nat i) xs)
         = take (nat b) (drop (nat i) xs) # chunks_of (nat b) (drop (nat (i + b)) xs)"
proof -
  have "drop (nat i) xs \<noteq> []" "nat b \<noteq> 0"
    using assms by simp_all
  moreover have "drop (nat b) (drop (nat i) xs) = drop (nat (i + b)) xs"
    using assms by (simp add: nat_add_distrib add.commute)
  ultimately show ?thesis
    by (subst chunks_of.simps) simp
qed

lemma chunks_of_Nil: "chunks_of n [] = []"
  by (subst chunks_of.simps) simp

lemma sum_results_Nil: "sum_results [] = no_result"
  by (simp add: sum_results_def)

lemma chunks_done:
  assumes "0 \<le> i" and "\<not> i < int (length xs)"
  shows "chunks_of n (drop (nat i) xs) = []"
  using assms by (simp add: chunks_of_Nil)

text \<open>The loop from index \<open>i\<close> attempts the chunks of the rest of the batch.\<close>

lemma batch_loop_chunks:
  assumes "0 < b" and "0 \<le> i"
  shows "batch_loop w records b i (db, tally) =
     (case attempt_chunks w b i db (chunks_of (nat b) (drop (nat i) records)) of
        (db', results) \<Rightarrow> Some (db', add_result tally (sum_results results)))"
  using assms(2)
proof (induction "length records - nat i" arbitrary: i db tally rule: less_induct)
  case less
  show ?case
  proof (cases "i < int (length records)")
    case False
    then show ?thesis
      using less.prems
      by (subst batch_loop.simps) (simp add: chunks_of_Nil sum_results_Nil add_no_result)
  next
    case True
    define chunk where "chunk = take (nat b) (drop (nat i) records)"
    obtain db1 res1 where attempt: "attempt_chunk w i db chunk = (db1, res1)"
      by (cases "attempt_chunk w i db chunk")
    have smaller: "length records - nat (i + b) < length records - nat i"
      using True less.prems assms(1) by linarith
    have next_index: "0 \<le> i + b"
      using less.prems assms(1) by simp
    have "batch_loop w records b i (db, tally)
          = batch_loop w records b (i + b) (db1, add_result tally res1)"
      using True attempt
      by (subst batch_loop.simps)
        (simp add: body_is_attempt [OF less.prems assms(1)] chunk_def)
    also have "\<dots> =
        (case attempt_chunks w b (i + b) db1 (chunks_of (nat b) (drop (nat (i + b)) records)) of
           (db', results) \<Rightarrow>
             Some (db', add_result (add_result tally res1) (sum_results results)))"
      by (rule less.hyps [OF smaller next_index])
    also have "\<dots> =
        (case attempt_chunks w b i db (chunks_of (nat b) (drop (nat i) records)) of
           (db', results) \<Rightarrow> Some (db', add_result tally (sum_results results)))"
      using attempt
      by (simp add: chunks_step [OF less.prems assms(1) True] chunk_def [symmetric]
          sum_results_Cons add_result_assoc split: prod.splits)
    finally show ?thesis .
  qed
qed

lemma concat_chunks: "0 < n \<Longrightarrow> concat (chunks_of n xs) = xs"
proof (induction n xs rule: chunks_of.induct)
  case (1 n xs)
  then show ?case
    by (subst chunks_of.simps) auto
qed

lemma chunks_bounded: "c \<in> set (chunks_of n xs) \<Longrightarrow> c \<noteq> [] \<and> length c \<le> n"
proof (induction n xs rule: chunks_of.induct)
  case (1 n xs)
  from "1.prems" have "n \<noteq> 0 \<and> xs \<noteq> []"
    by (subst (asm) chunks_of.simps) (auto split: if_splits)
  moreover from this "1.prems" have "c = take n xs \<or> c \<in> set (chunks_of n (drop n xs))"
    by (subst (asm) chunks_of.simps) auto
  ultimately show ?case
    using "1.IH" by auto
qed

lemma attempts_all: "length (snd (attempt_chunks w b i db chunks)) = length chunks"
proof (induction chunks arbitrary: i db)
  case Nil
  then show ?case by simp
next
  case (Cons chunk chunks)
  obtain db1 res1 where first: "attempt_chunk w i db chunk = (db1, res1)"
    by (cases "attempt_chunk w i db chunk")
  obtain db2 results where rest: "attempt_chunks w b (i + b) db1 chunks = (db2, results)"
    by (cases "attempt_chunks w b (i + b) db1 chunks")
  from Cons.IH [of "i + b" db1] rest have "length results = length chunks"
    by simp
  with first rest show ?case
    by simp
qed

lemma failed_chunk:
  assumes "fst (w i)" and "chunk \<noteq> []"
  shows "attempt_chunk w i db chunk = (db, no_result\<lparr>errors := int (length chunk)\<rparr>)"
  using assms by (simp add: attempt_chunk_def upsertRecords_def)

text \<open>With a chunk size of zero or below, the loop over a batch with a record never ends.\<close>

lemma batch_loop_stuck:
  assumes returns: "batch_loop w records b i st = Some y"
  shows "\<not> (b \<le> 0 \<and> i < int (length records))"
proof (rule batch_loop.raw_induct
    [where P = "\<lambda>w records b i st y. \<not> (b \<le> 0 \<and> i < int (length records))", OF _ returns])
  fix loop :: "world \<Rightarrow> ProcessedRecord list \<Rightarrow> int \<Rightarrow> int \<Rightarrow> database \<times> UpsertResult
      \<Rightarrow> (database \<times> UpsertResult) option"
  fix w records b i st y
  assume IH: "\<And>w records b i st y. loop w records b i st = Some y \<Longrightarrow>
      \<not> (b \<le> 0 \<and> i < int (length records))"
    and body: "(if i < int (length records)
                then loop w records b (i + b) (batch_body w records b i st)
                else Some st) = Some y"
  show "\<not> (b \<le> 0 \<and> i < int (length records))"
  proof
    assume stuck: "b \<le> 0 \<and> i < int (length records)"
    with body have "loop w records b (i + b) (batch_body w records b i st) = Some y"
      by simp
    then have "\<not> (b \<le> 0 \<and> i + b < int (length records))"
      by (rule IH)
    with stuck show False
      by simp
  qed
qed

text \<open>
  C6 (as amended). For every batch and every positive chunk size, the batch upsert
  returns, and it does what attempting the consecutive chunks of at most that size
  one after the other does: the chunks together are the batch, every chunk is
  attempted, whatever happened to the chunks before it, a chunk whose transaction
  fails leaves the store as it was and counts its records as errors, and the tally
  returned is the sum of the results of the chunks.
\<close>

theorem batch_upsert_chunks:
  assumes "0 < batchSize"
  shows "batchUpsertRecords w db records (Some batchSize) =
       (case attempt_chunks w batchSize 0 db (chunks_of (nat batchSize) records) of
          (db', results) \<Rightarrow> Some (db', sum_results results))
    \<and> concat (chunks_of (nat batchSize) records) = records
    \<and> (\<forall>c \<in> set (chunks_of (nat batchSize) records). c \<noteq> [] \<and> int (length c) \<le> batchSize)
    \<and> length (snd (attempt_chunks w batchSize 0 db (chunks_of (nat batchSize) records)))
        = length (chunks_of (nat batchSize) records)
    \<and> (fst (w i) \<longrightarrow> chunk \<noteq> [] \<longrightarrow>
         attempt_chunk w i db0 chunk = (db0, no_result\<lparr>errors := int (length chunk)\<rparr>))"
proof (intro conjI impI ballI)
  show "batchUpsertRecords w db records (Some batchSize) =
       (case attempt_chunks w batchSize 0 db (chunks_of (nat batchSize) records) of
          (db', results) \<Rightarrow> Some (db', sum_results results))"
    using batch_loop_chunks [OF assms, of 0 w records db no_result]
    by (simp add: batchUpsertRecords_def add_no_result)
  show "concat (chunks_of (nat batchSize) records) = records"
    using assms by (simp add: concat_chunks)
  show "length (snd (attempt_chunks w batchSize 0 db (chunks_of (nat batchSize) records)))
        = length (chunks_of (nat batchSize) records)"
    by (rule attempts_all)
next
  fix c
  assume "c \<in> set (chunks_of (nat batchSize) records)"
  then have "c \<noteq> [] \<and> length c \<le> nat batchSize"
    by (rule chunks_bounded)
  then show "c \<noteq> []" and "int (length c) \<le> batchSize"
    using assms by (simp_all add: le_nat_iff)
next
  assume "fst (w i)" and "chunk \<noteq> []"
  then show "attempt_chunk w i db0 chunk = (db0, no_result\<lparr>errors := int (length chunk)\<rparr>)"
    by (rule failed_chunk)
qed

theorem batch_upsert_chunks_witness:
  "map_option snd (batchUpsertRecords failing_world empty_store
     [year_record Api (Some (Fin 2000)), year_record Api (Some (Fin 2001)),
      year_record Api (Some (Fin 2002)), year_record Api (Some (Fin 2003)),
      year_record Api (Some (Fin 2004))] (Some 2))
   = Some (sum_results (snd (attempt_chunks failing_world 2 0 empty_store
       [[year_record Api (Some (Fin 2000)), year_record Api (Some (Fin 2001))],
        [year_record Api (Some (Fin 2002)), year_record Api (Some (Fin 2003))],
        [year_record Api (Some (Fin 2004))]])))
   \<and> attempt_chunk failing_world 2 empty_store
       [year_record Api (Some (Fin 2002)), year_record Api (Some (Fin 2003))]
     = (empty_store, no_result\<lparr>errors := 2\<rparr>)"
proof -
  define records where
    "records = [year_record Api (Some (Fin 2000)), year_record Api (Some (Fin 2001)),
      year_record Api (Some (Fin 2002)), year_record Api (Some (Fin 2003)),
      year_record Api (Some (Fin 2004))]"
  have positive: "(0::int) < 2"
    by simp
  have chunks: "chunks_of (nat 2) records =
      [[year_record Api (Some (Fin 2000)), year_record Api (Some (Fin 2001))],
       [year_record Api (Some (Fin 2002)), year_record Api (Some (Fin 2003))],
       [year_record Api (Some (Fin 2004))]]"
    unfolding records_def
    by (subst chunks_of.simps, simp)+
  have fails: "fst (failing_world 2)"
    by (simp add: failing_world_def)
  have nonempty: "[year_record Api (Some (Fin 2002)), year_record Api (Some (Fin 2003))] \<noteq> []"
    by simp
  from batch_upsert_chunks [OF positive, of failing_world empty_store records 2
      "[year_record Api (Some (Fin 2002)), year_record Api (Some (Fin 2003))]" empty_store]
    chunks fails nonempty
  show ?thesis
    unfolding records_def by (auto split: prod.splits)
qed

text \<open>
  C6 as stated fails for the chunk size 0: the index never advances and the batch
  upsert of a batch with a record does not return.
\<close>

theorem batch_upsert_chunks_counterexample:
  "batchUpsertRecords steady_world empty_store [year_record Api None] (Some 0) = None"
proof (cases "batchUpsertRecords steady_world empty_store [year_record Api None] (Some 0)")
  case None
  then show ?thesis .
next
  case (Some y)
  then have "batch_loop steady_world [year_record Api None] 0 0 (empty_store, no_result) = Some y"
    by (simp add: batchUpsertRecords_def)
  then have "\<not> ((0::int) \<le> 0 \<and> 0 < int (length [year_record Api None]))"
    by (rule batch_loop_stuck)
  then show ?thesis
    by simp
qed

end
